theory Spec2Isabelle
  imports Complex_Main "HOL-Library.Sublist" "HOL-Library.List_Lexorder"
begin

section \<open>Python values, strings and the library the cleaner calls\<close>

text \<open>
  The code under study is \<^verbatim>\<open>CourseDataCleaner\<close> in
  \<^verbatim>\<open>src/scraping/utils/data_cleaner.py\<close> with the rules of
  \<^verbatim>\<open>src/scraping/config.py\<close>.

  A Python \<^verbatim>\<open>str\<close> is a sequence of Unicode code points, so a string is a list of
  natural numbers here, and \<open>ustr\<close> turns an ASCII literal into one.
  Python compares strings lexicographically by code point, which is the order of
  \<open>List_Lexorder\<close>.
\<close>

type_synonym ustring = "nat list"

definition ord :: "char \<Rightarrow> nat" where
  "ord c = of_char c"

definition ustr :: "string \<Rightarrow> ustring" where
  "ustr s = map ord s"

text \<open>
  A field of a scraped record has type \<^verbatim>\<open>Any\<close>: the values that a JSON file or a
  scraper can put there. A float is kept as the exact number it denotes, or as one of
  its three special values; only its truth value, its equality with an integer and its
  truncation by \<^verbatim>\<open>int()\<close> are used.
\<close>

datatype pyfloat = Finite rat | Infinity bool | NaN

datatype pyval =
    PNone
  | PBool bool
  | PInt int
  | PFloat pyfloat
  | PStr ustring
  | PList "pyval list"
  | PDict "(ustring \<times> pyval) list"

datatype error = ValueError | TypeError | OverflowError | ZeroDivisionError | AttributeError

text \<open>
  The Unicode tables and \<^verbatim>\<open>repr\<close> of floats and containers belong to the interpreter,
  not to the repository. Every function below decides the ASCII range itself and asks
  these tables only about characters (or strings containing characters) outside ASCII:
  \<open>u_isalnum\<close> is \<^verbatim>\<open>str.isalnum\<close>, \<open>u_digit\<close> the value of a decimal digit,
  \<open>u_upper\<close> the full upper-case mapping of one character, \<open>u_lower\<close> and
  \<open>u_title\<close> are \<^verbatim>\<open>str.lower\<close> and \<^verbatim>\<open>str.title\<close> (which look at the context of
  a character), \<open>py_repr\<close> is \<^verbatim>\<open>repr\<close>.
  Integers convert to and from decimal strings without a limit on the number of digits,
  as they do when that limit is switched off (\<^verbatim>\<open>sys.set_int_max_str_digits(0)\<close>) and
  in every Python before 3.11.
\<close>

record pylib =
  u_isalnum :: "nat \<Rightarrow> bool"
  u_digit :: "nat \<Rightarrow> nat option"
  u_upper :: "nat \<Rightarrow> ustring"
  u_lower :: "ustring \<Rightarrow> ustring"
  u_title :: "ustring \<Rightarrow> ustring"
  py_repr :: "pyval \<Rightarrow> ustring"

text \<open>Tables that know no character outside ASCII, to run the code on ASCII inputs.\<close>

definition ascii_lib :: pylib where
  "ascii_lib = \<lparr> u_isalnum = (\<lambda>c. False), u_digit = (\<lambda>c. None), u_upper = (\<lambda>c. [c]),
                  u_lower = (\<lambda>s. s), u_title = (\<lambda>s. s), py_repr = (\<lambda>v. []) \<rparr>"

subsection \<open>Characters\<close>

definition isascii :: "nat \<Rightarrow> bool" where
  "isascii c = (c < 128)"

text \<open>\<^verbatim>\<open>str.isspace\<close> of one character; it is also what \<^verbatim>\<open>\s\<close> matches in a
  \<^verbatim>\<open>str\<close> pattern and what \<^verbatim>\<open>str.strip()\<close> removes.\<close>

definition isspace :: "nat \<Rightarrow> bool" where
  "isspace c = ((9 \<le> c \<and> c \<le> 13) \<or> (28 \<le> c \<and> c \<le> 32) \<or> c = 0x85 \<or> c = 0xA0
     \<or> c = 0x1680 \<or> (0x2000 \<le> c \<and> c \<le> 0x200A) \<or> c = 0x2028 \<or> c = 0x2029
     \<or> c = 0x202F \<or> c = 0x205F \<or> c = 0x3000)"

definition is_AZ :: "nat \<Rightarrow> bool" where
  "is_AZ c = (65 \<le> c \<and> c \<le> 90)"

definition is_az :: "nat \<Rightarrow> bool" where
  "is_az c = (97 \<le> c \<and> c \<le> 122)"

definition is_09 :: "nat \<Rightarrow> bool" where
  "is_09 c = (48 \<le> c \<and> c \<le> 57)"

definition digit_val :: "pylib \<Rightarrow> nat \<Rightarrow> nat option" where
  "digit_val U c = (if isascii c then (if is_09 c then Some (c - 48) else None) else u_digit U c)"

text \<open>\<^verbatim>\<open>\d\<close> and \<^verbatim>\<open>\w\<close> of a \<^verbatim>\<open>str\<close> pattern.\<close>

definition is_digit :: "pylib \<Rightarrow> nat \<Rightarrow> bool" where
  "is_digit U c = (digit_val U c \<noteq> None)"

definition is_word :: "pylib \<Rightarrow> nat \<Rightarrow> bool" where
  "is_word U c = (if isascii c then is_AZ c \<or> is_az c \<or> is_09 c \<or> c = ord CHR ''_''
                  else u_isalnum U c)"

definition ascii_lower :: "nat \<Rightarrow> nat" where
  "ascii_lower c = (if is_AZ c then c + 32 else c)"

definition ascii_upper :: "nat \<Rightarrow> nat" where
  "ascii_upper c = (if is_az c then c - 32 else c)"

subsection \<open>String methods\<close>

definition strip :: "ustring \<Rightarrow> ustring" where
  "strip s = rev (dropWhile isspace (rev (dropWhile isspace s)))"

definition lower :: "pylib \<Rightarrow> ustring \<Rightarrow> ustring" where
  "lower U s = (if list_all isascii s then map ascii_lower s else u_lower U s)"

definition upper :: "pylib \<Rightarrow> ustring \<Rightarrow> ustring" where
  "upper U s = concat (map (\<lambda>c. if isascii c then [ascii_upper c] else u_upper U c) s)"

text \<open>\<^verbatim>\<open>str.title()\<close>: a letter after a letter is lowered, any other letter is raised.\<close>

fun ascii_title :: "bool \<Rightarrow> ustring \<Rightarrow> ustring" where
  "ascii_title prev [] = []"
| "ascii_title prev (c # cs) =
     (if prev then ascii_lower c else ascii_upper c) # ascii_title (is_AZ c \<or> is_az c) cs"

definition title :: "pylib \<Rightarrow> ustring \<Rightarrow> ustring" where
  "title U s = (if list_all isascii s then ascii_title False s else u_title U s)"

text \<open>\<^verbatim>\<open>text.replace(a, b)\<close> for single characters.\<close>

definition replace_char :: "nat \<Rightarrow> nat \<Rightarrow> ustring \<Rightarrow> ustring" where
  "replace_char a b s = map (\<lambda>c. if c = a then b else c) s"

text \<open>\<^verbatim>\<open>sep.join(xs)\<close>.\<close>

fun join :: "ustring \<Rightarrow> ustring list \<Rightarrow> ustring" where
  "join sep [] = []"
| "join sep [x] = x"
| "join sep (x # y # ys) = x @ sep @ join sep (y # ys)"

subsection \<open>Truth values, \<^verbatim>\<open>str()\<close>, \<^verbatim>\<open>int()\<close>, \<^verbatim>\<open>len()\<close>\<close>

fun truthy :: "pyval \<Rightarrow> bool" where
  "truthy PNone = False"
| "truthy (PBool b) = b"
| "truthy (PInt n) = (n \<noteq> 0)"
| "truthy (PFloat f) = (f \<noteq> Finite 0)"
| "truthy (PStr s) = (s \<noteq> [])"
| "truthy (PList xs) = (xs \<noteq> [])"
| "truthy (PDict kvs) = (kvs \<noteq> [])"

fun str_of_nat :: "nat \<Rightarrow> ustring" where
  "str_of_nat n = (if n < 10 then [48 + n] else str_of_nat (n div 10) @ [48 + n mod 10])"

declare str_of_nat.simps [simp del]

definition str_of_int :: "int \<Rightarrow> ustring" where
  "str_of_int i = (if i < 0 then ord CHR ''-'' # str_of_nat (nat (- i)) else str_of_nat (nat i))"

fun py_str :: "pylib \<Rightarrow> pyval \<Rightarrow> ustring" where
  "py_str U PNone = ustr ''None''"
| "py_str U (PBool b) = (if b then ustr ''True'' else ustr ''False'')"
| "py_str U (PInt n) = str_of_int n"
| "py_str U (PStr s) = s"
| "py_str U v = py_repr U v"

text \<open>
  \<^verbatim>\<open>int(s)\<close> for a string: surrounding whitespace is dropped, one sign is allowed, then
  decimal digits, where single underscores may stand between two digits. The whitespace
  that \<^verbatim>\<open>int()\<close> drops is that of \<^verbatim>\<open>str.isspace\<close> without the four separators
  U+001C to U+001F: \<^verbatim>\<open>int('\x1c12')\<close> raises \<^verbatim>\<open>ValueError\<close>.
\<close>

definition int_space :: "nat \<Rightarrow> bool" where
  "int_space c = (isspace c \<and> \<not> (28 \<le> c \<and> c \<le> 31))"

fun digits_value :: "pylib \<Rightarrow> nat \<Rightarrow> ustring \<Rightarrow> nat option" where
  "digits_value U acc [] = Some acc"
| "digits_value U acc (c # cs) =
     (if c = ord CHR ''_'' then
        (case cs of [] \<Rightarrow> None
         | d # _ \<Rightarrow> if is_digit U d then digits_value U acc cs else None)
      else (case digit_val U c of None \<Rightarrow> None
            | Some d \<Rightarrow> digits_value U (acc * 10 + d) cs))"

definition unsigned_of_str :: "pylib \<Rightarrow> ustring \<Rightarrow> nat option" where
  "unsigned_of_str U s =
     (case s of [] \<Rightarrow> None
      | c # _ \<Rightarrow> if is_digit U c then digits_value U 0 s else None)"

definition int_of_str :: "pylib \<Rightarrow> ustring \<Rightarrow> int option" where
  "int_of_str U s =
     (case rev (dropWhile int_space (rev (dropWhile int_space s))) of [] \<Rightarrow> None
      | c # cs \<Rightarrow>
          if c = ord CHR ''-'' then map_option (\<lambda>n. - int n) (unsigned_of_str U cs)
          else if c = ord CHR ''+'' then map_option int (unsigned_of_str U cs)
          else map_option int (unsigned_of_str U (c # cs)))"

fun py_int :: "pylib \<Rightarrow> pyval \<Rightarrow> error + int" where
  "py_int U PNone = Inl TypeError"
| "py_int U (PBool b) = Inr (if b then 1 else 0)"
| "py_int U (PInt n) = Inr n"
| "py_int U (PFloat (Finite r)) = Inr (if 0 \<le> r then \<lfloor>r\<rfloor> else \<lceil>r\<rceil>)"
| "py_int U (PFloat (Infinity _)) = Inl OverflowError"
| "py_int U (PFloat NaN) = Inl ValueError"
| "py_int U (PStr s) = (case int_of_str U s of None \<Rightarrow> Inl ValueError | Some n \<Rightarrow> Inr n)"
| "py_int U (PList _) = Inl TypeError"
| "py_int U (PDict _) = Inl TypeError"

fun py_len :: "pyval \<Rightarrow> error + nat" where
  "py_len (PStr s) = Inr (length s)"
| "py_len (PList xs) = Inr (length xs)"
| "py_len (PDict kvs) = Inr (length kvs)"
| "py_len _ = Inl TypeError"

text \<open>\<^verbatim>\<open>v in [n1, n2, ...]\<close> for a list of integers compares with \<^verbatim>\<open>==\<close>.\<close>

fun py_eq_int :: "pyval \<Rightarrow> int \<Rightarrow> bool" where
  "py_eq_int (PInt m) n = (m = n)"
| "py_eq_int (PBool b) n = ((if b then 1 else 0) = n)"
| "py_eq_int (PFloat (Finite r)) n = (r = of_int n)"
| "py_eq_int _ n = False"

definition py_in_ints :: "pyval \<Rightarrow> int list \<Rightarrow> bool" where
  "py_in_ints v ns = list_ex (py_eq_int v) ns"

section \<open>Configuration\<close>

text \<open>\<^verbatim>\<open>VALIDATION_RULES\<close> of \<^verbatim>\<open>config.py\<close>.\<close>

definition required_fields :: "ustring list" where
  "required_fields = [ustr ''name'', ustr ''nfq_level'']"

definition min_description_length :: nat where
  "min_description_length = 5"

definition valid_nfq_levels :: "int list" where
  "valid_nfq_levels = [5, 6, 7, 8, 9, 10]"

definition max_course_name_length :: nat where
  "max_course_name_length = 200"

definition min_course_name_length :: nat where
  "min_course_name_length = 3"

section \<open>Field cleaners\<close>

text \<open>\<^verbatim>\<open>re.sub(r'\s+', ' ', text)\<close>: every maximal run of whitespace becomes one space.
  The flag says that the previous character belonged to a run.\<close>

fun collapse_ws :: "bool \<Rightarrow> ustring \<Rightarrow> ustring" where
  "collapse_ws in_run [] = []"
| "collapse_ws in_run (c # cs) =
     (if isspace c then (if in_run then collapse_ws True cs else 32 # collapse_ws True cs)
      else c # collapse_ws False cs)"

text \<open>The class \<^verbatim>\<open>[\w\s\-.,()&/]\<close> whose complement is deleted.\<close>

definition allowed :: "pylib \<Rightarrow> nat \<Rightarrow> bool" where
  "allowed U c = (is_word U c \<or> isspace c \<or> c \<in> set (ustr ''-.,()&/''))"

definition clean_text_field :: "pylib \<Rightarrow> pyval \<Rightarrow> ustring" where
  "clean_text_field U text =
     (if \<not> truthy text then []
      else
        let t = strip (py_str U text);
            t = collapse_ws False t;
            t = replace_char 0xA0 (ord CHR '' '') t;
            t = replace_char 0x2019 0x27 t;
            t = replace_char 0x201C 0x22 t;
            t = replace_char 0x201D 0x22 t;
            t = replace_char 0x2013 (ord CHR ''-'') t;
            t = replace_char 0x2014 (ord CHR ''-'') t;
            t = filter (allowed U) t
        in strip t)"

text \<open>
  \<^verbatim>\<open>re.search(r'([A-Z]{2,4})(\d{3,4})', code)\<close>. At one position the matcher tries the
  longest run of letters first and, for it, the longest run of digits first; the search
  takes the leftmost position where some attempt succeeds.
\<close>

fun first_some :: "('a \<Rightarrow> 'b option) \<Rightarrow> 'a list \<Rightarrow> 'b option" where
  "first_some f [] = None"
| "first_some f (x # xs) = (case f x of Some y \<Rightarrow> Some y | None \<Rightarrow> first_some f xs)"

definition cao_try :: "pylib \<Rightarrow> ustring \<Rightarrow> nat \<times> nat \<Rightarrow> (ustring \<times> ustring) option" where
  "cao_try U s nm =
     (let g1 = take (fst nm) s; g2 = take (snd nm) (drop (fst nm) s)
      in if length g1 = fst nm \<and> list_all is_AZ g1 \<and>
            length g2 = snd nm \<and> list_all (is_digit U) g2
         then Some (g1, g2) else None)"

definition cao_match_at :: "pylib \<Rightarrow> ustring \<Rightarrow> (ustring \<times> ustring) option" where
  "cao_match_at U s = first_some (cao_try U s) [(4, 4), (4, 3), (3, 4), (3, 3), (2, 4), (2, 3)]"

fun cao_search :: "pylib \<Rightarrow> ustring \<Rightarrow> (ustring \<times> ustring) option" where
  "cao_search U [] = cao_match_at U []"
| "cao_search U (c # cs) =
     (case cao_match_at U (c # cs) of Some r \<Rightarrow> Some r | None \<Rightarrow> cao_search U cs)"

definition standardize_cao_code :: "pylib \<Rightarrow> pyval \<Rightarrow> ustring" where
  "standardize_cao_code U code =
     (if \<not> truthy code then []
      else
        let s = upper U (strip (py_str U code))
        in case cao_search U s of
             Some (g1, g2) \<Rightarrow> g1 @ g2
           | None \<Rightarrow> filter (\<lambda>c. is_AZ c \<or> is_09 c) s)"

text \<open>The three numeric cleaners catch \<^verbatim>\<open>ValueError\<close> and \<^verbatim>\<open>TypeError\<close> only.\<close>

definition caught :: "error \<Rightarrow> bool" where
  "caught e = (e = ValueError \<or> e = TypeError)"

definition clean_nfq_level :: "pylib \<Rightarrow> pyval \<Rightarrow> error + int" where
  "clean_nfq_level U level =
     (if \<not> truthy level then Inr 8
      else case py_int U level of
             Inr n \<Rightarrow> if n \<in> set valid_nfq_levels then Inr n else Inr 8
           | Inl e \<Rightarrow> if caught e then Inr 8 else Inl e)"

definition clean_points :: "pylib \<Rightarrow> pyval \<Rightarrow> error + int" where
  "clean_points U points =
     (if \<not> truthy points then Inr 0
      else case py_int U points of
             Inr n \<Rightarrow> if 0 \<le> n \<and> n \<le> 625 then Inr n else Inr 0
           | Inl e \<Rightarrow> if caught e then Inr 0 else Inl e)"

definition clean_college_id :: "pylib \<Rightarrow> pyval \<Rightarrow> error + int" where
  "clean_college_id U college_id =
     (if \<not> truthy college_id then Inr 1
      else case py_int U college_id of
             Inr n \<Rightarrow> if n > 0 then Inr n else Inr 1
           | Inl e \<Rightarrow> if caught e then Inr 1 else Inl e)"

section \<open>Records, errors and the statistics\<close>

text \<open>
  A course record is a \<^verbatim>\<open>Dict[str, Any]\<close>. The cleaner keeps its statistics in
  \<^verbatim>\<open>self.validation_stats\<close>; the methods that write it take it and return it.
  \<^verbatim>\<open>validation_errors\<close> is a dictionary whose order of insertion is kept.
\<close>

type_synonym course = "ustring \<rightharpoonup> pyval"

record validation_stats =
  total_records :: nat
  valid_records :: nat
  duplicates_removed :: nat
  validation_errors :: "(ustring \<times> ustring list) list"

definition init_stats :: validation_stats where
  "init_stats = \<lparr> total_records = 0, valid_records = 0, duplicates_removed = 0,
                   validation_errors = [] \<rparr>"

text \<open>\<^verbatim>\<open>d[k] = v\<close>: an existing key keeps its place, a new key goes to the end.\<close>

fun dict_set :: "('k \<times> 'v) list \<Rightarrow> 'k \<Rightarrow> 'v \<Rightarrow> ('k \<times> 'v) list" where
  "dict_set [] k v = [(k, v)]"
| "dict_set ((k', v') # kvs) k v = (if k' = k then (k, v) # kvs else (k', v') # dict_set kvs k v)"

text \<open>\<^verbatim>\<open>course.get(key, default)\<close>.\<close>

definition get :: "course \<Rightarrow> ustring \<Rightarrow> pyval \<Rightarrow> pyval" where
  "get course key dflt = (case course key of None \<Rightarrow> dflt | Some v \<Rightarrow> v)"

text \<open>An exception leaves the rest of the computation undone.\<close>

definition bind_err :: "error + 'a \<Rightarrow> ('a \<Rightarrow> error + 'b) \<Rightarrow> error + 'b" where
  "bind_err r f = (case r of Inl e \<Rightarrow> Inl e | Inr x \<Rightarrow> f x)"

text \<open>A list comprehension \<^verbatim>\<open>[f(x) for x in xs]\<close> whose \<open>f\<close> may raise.\<close>

fun map_err :: "('a \<Rightarrow> error + 'b) \<Rightarrow> 'a list \<Rightarrow> error + 'b list" where
  "map_err f [] = Inr []"
| "map_err f (x # xs) =
     bind_err (f x) (\<lambda>y. bind_err (map_err f xs) (\<lambda>ys. Inr (y # ys)))"

section \<open>Cleaning one record\<close>

definition text_fields :: "ustring list" where
  "text_fields = [ustr ''name'', ustr ''description'', ustr ''duration'', ustr ''tags'',
                  ustr ''entry_requirements'', ustr ''career_info'']"

definition clean_text_fields :: "pylib \<Rightarrow> course \<Rightarrow> course" where
  "clean_text_fields U course =
     fold (\<lambda>field cleaned.
             case cleaned field of None \<Rightarrow> cleaned
             | Some v \<Rightarrow> cleaned(field \<mapsto> PStr (clean_text_field U v)))
          text_fields course"

text \<open>\<^verbatim>\<open>if key in cleaned: cleaned[key] = f(cleaned[key])\<close> for a cleaner that returns an
  integer or raises.\<close>

definition clean_numeric :: "(pyval \<Rightarrow> error + int) \<Rightarrow> ustring \<Rightarrow> course \<Rightarrow> error + course" where
  "clean_numeric f key cleaned =
     (case cleaned key of None \<Rightarrow> Inr cleaned
      | Some v \<Rightarrow> bind_err (f v) (\<lambda>n. Inr (cleaned(key \<mapsto> PInt n))))"

definition clean_single_course :: "pylib \<Rightarrow> course \<Rightarrow> error + course" where
  "clean_single_course U course =
     (let cleaned = clean_text_fields U course;
          cleaned = (case cleaned (ustr ''cao_code'') of None \<Rightarrow> cleaned
                     | Some v \<Rightarrow> cleaned(ustr ''cao_code'' \<mapsto> PStr (standardize_cao_code U v)))
      in bind_err (clean_numeric (clean_nfq_level U) (ustr ''nfq_level'') cleaned) (\<lambda>cleaned.
         bind_err (clean_numeric (clean_points U) (ustr ''points'') cleaned) (\<lambda>cleaned.
         clean_numeric (clean_college_id U) (ustr ''college_id'') cleaned)))"

section \<open>Validation\<close>

definition invalid_names :: "ustring list" where
  "invalid_names = [ustr ''about us'', ustr ''contact us'', ustr ''help'', ustr ''privacy'',
                    ustr ''cookie'', ustr ''accessibility'', ustr ''terms'']"

text \<open>\<^verbatim>\<open>any(invalid in name.lower() for invalid in invalid_names)\<close>.\<close>

definition system_page :: "pylib \<Rightarrow> ustring \<Rightarrow> bool" where
  "system_page U name = list_ex (\<lambda>invalid. sublist invalid (lower U name)) invalid_names"

definition missing_required :: "course \<Rightarrow> ustring list" where
  "missing_required course =
     concat (map (\<lambda>field.
                    case course field of
                      None \<Rightarrow> [ustr ''Missing required field: '' @ field]
                    | Some v \<Rightarrow> if truthy v then [] else [ustr ''Missing required field: '' @ field])
                 required_fields)"

text \<open>The rule on the NFQ level, and the message it appends.\<close>

definition nfq_rule_ok :: "course \<Rightarrow> bool" where
  "nfq_rule_ok course = py_in_ints (get course (ustr ''nfq_level'') PNone) valid_nfq_levels"

definition nfq_message :: "pylib \<Rightarrow> course \<Rightarrow> ustring" where
  "nfq_message U course = ustr ''Invalid NFQ level: '' @ py_str U (get course (ustr ''nfq_level'') PNone)"

text \<open>
  The list \<^verbatim>\<open>errors\<close> that \<^verbatim>\<open>validate_course\<close> builds. \<^verbatim>\<open>len\<close> of a description or a
  name that is true but has no length raises \<^verbatim>\<open>TypeError\<close>; \<^verbatim>\<open>name.lower()\<close> of a
  name that is not a string raises \<^verbatim>\<open>AttributeError\<close>.
\<close>

definition course_errors :: "pylib \<Rightarrow> course \<Rightarrow> error + ustring list" where
  "course_errors U course =
     (let errors = missing_required course;
          description = get course (ustr ''description'') (PStr []);
          name = get course (ustr ''name'') (PStr [])
      in bind_err (if truthy description then py_len description else Inr 0) (\<lambda>_.
         bind_err (if truthy name then py_len name else Inr 0) (\<lambda>n.
           let errors = errors @ (if truthy name \<and> n > max_course_name_length
                                  then [ustr ''Course name too long: '' @ str_of_nat n @ ustr '' chars'']
                                  else []);
               errors = errors @ (if \<not> truthy name \<or> n < min_course_name_length
                                  then [ustr ''Course name too short: '' @ str_of_nat n @ ustr '' chars'']
                                  else [])
           in bind_err (if truthy name
                        then (case name of PStr s \<Rightarrow> Inr (system_page U s) | _ \<Rightarrow> Inl AttributeError)
                        else Inr False) (\<lambda>sys.
                let errors = errors @ (if sys then [ustr ''Not a course entry (system page)''] else []);
                    errors = errors @ (if \<not> nfq_rule_ok course then [nfq_message U course] else [])
                in Inr errors))))"

text \<open>
  \<^verbatim>\<open>course.get('name', 'Unknown')[:50]\<close> is the key of the reasons. A name that is not a
  string and has got this far is false: it cannot be sliced, or its slice cannot be a key.
\<close>

definition course_name :: "course \<Rightarrow> error + ustring" where
  "course_name course =
     (case get course (ustr ''name'') (PStr (ustr ''Unknown'')) of
        PStr s \<Rightarrow> Inr (take 50 s)
      | _ \<Rightarrow> Inl TypeError)"

definition validate_course :: "pylib \<Rightarrow> validation_stats \<Rightarrow> course \<Rightarrow> error + (bool \<times> validation_stats)" where
  "validate_course U st course =
     bind_err (course_errors U course) (\<lambda>errors.
       if errors \<noteq> [] then
         bind_err (course_name course) (\<lambda>key.
           Inr (False, st\<lparr>validation_errors := dict_set (validation_errors st) key errors\<rparr>))
       else Inr (True, st))"

text \<open>\<^verbatim>\<open>[course for course in cleaned_courses if self.validate_course(course)]\<close>.\<close>

fun validate_all :: "pylib \<Rightarrow> validation_stats \<Rightarrow> course list \<Rightarrow> error + (course list \<times> validation_stats)" where
  "validate_all U st [] = Inr ([], st)"
| "validate_all U st (c # cs) =
     bind_err (validate_course U st c) (\<lambda>(ok, st1).
     bind_err (validate_all U st1 cs) (\<lambda>(valid, st2).
       Inr (if ok then c # valid else valid, st2)))"

section \<open>Deduplication\<close>

text \<open>The key of a record; \<^verbatim>\<open>.lower()\<close> and \<^verbatim>\<open>.strip()\<close> exist on strings only.\<close>

definition dedup_key :: "pylib \<Rightarrow> course \<Rightarrow> error + ustring" where
  "dedup_key U course =
     (case get course (ustr ''name'') (PStr []) of
        PStr n \<Rightarrow>
          (case get course (ustr ''cao_code'') (PStr []) of
             PStr c \<Rightarrow>
               (let name = strip (lower U n); cao_code = strip c
                in Inr (if cao_code \<noteq> [] then name @ ustr ''|'' @ cao_code else name))
           | _ \<Rightarrow> Inl AttributeError)
      | _ \<Rightarrow> Inl AttributeError)"

fun dedup_loop :: "pylib \<Rightarrow> ustring set \<Rightarrow> course list \<Rightarrow> nat \<Rightarrow> course list \<Rightarrow> error + (course list \<times> nat)" where
  "dedup_loop U seen_keys unique_courses duplicates_count [] =
     Inr (unique_courses, duplicates_count)"
| "dedup_loop U seen_keys unique_courses duplicates_count (course # courses) =
     bind_err (dedup_key U course) (\<lambda>key.
       if key \<noteq> [] \<and> key \<notin> seen_keys
       then dedup_loop U (insert key seen_keys) (unique_courses @ [course]) duplicates_count courses
       else dedup_loop U seen_keys unique_courses (duplicates_count + 1) courses)"

definition remove_duplicates :: "pylib \<Rightarrow> validation_stats \<Rightarrow> course list \<Rightarrow> error + (course list \<times> validation_stats)" where
  "remove_duplicates U st courses =
     bind_err (dedup_loop U {} [] 0 courses) (\<lambda>(unique_courses, duplicates_count).
       Inr (unique_courses, st\<lparr>duplicates_removed := duplicates_count\<rparr>))"

section \<open>Enrichment\<close>

text \<open>
  \<^verbatim>\<open>re.search(r'\b([A-Z]{2,4}\d{3,4})\b', name.upper())\<close>: the same attempts as above,
  between two word boundaries. A boundary lies between a word character and a character
  that is none (or an end of the string).
\<close>

definition boundary :: "pylib \<Rightarrow> nat option \<Rightarrow> ustring \<Rightarrow> bool" where
  "boundary U prev rest =
     ((case prev of None \<Rightarrow> False | Some c \<Rightarrow> is_word U c)
      \<noteq> (case rest of [] \<Rightarrow> False | c # _ \<Rightarrow> is_word U c))"

definition name_code_try :: "pylib \<Rightarrow> ustring \<Rightarrow> nat \<times> nat \<Rightarrow> ustring option" where
  "name_code_try U s nm =
     (case cao_try U s nm of
        None \<Rightarrow> None
      | Some (g1, g2) \<Rightarrow>
          if boundary U (Some (last (g1 @ g2))) (drop (fst nm + snd nm) s)
          then Some (g1 @ g2) else None)"

definition name_code_at :: "pylib \<Rightarrow> nat option \<Rightarrow> ustring \<Rightarrow> ustring option" where
  "name_code_at U prev s =
     (if boundary U prev s
      then first_some (name_code_try U s) [(4, 4), (4, 3), (3, 4), (3, 3), (2, 4), (2, 3)]
      else None)"

fun name_code_search :: "pylib \<Rightarrow> nat option \<Rightarrow> ustring \<Rightarrow> ustring option" where
  "name_code_search U prev [] = None"
| "name_code_search U prev (c # cs) =
     (case name_code_at U prev (c # cs) of
        Some g \<Rightarrow> Some g
      | None \<Rightarrow> name_code_search U (Some c) cs)"

definition extract_cao_code_from_name :: "pylib \<Rightarrow> pyval \<Rightarrow> error + ustring" where
  "extract_cao_code_from_name U name =
     (if \<not> truthy name then Inr []
      else case name of
             PStr s \<Rightarrow> (case name_code_search U None (upper U s) of
                          Some g \<Rightarrow> Inr g | None \<Rightarrow> Inr [])
           | _ \<Rightarrow> Inl AttributeError)"

text \<open>\<^verbatim>\<open>any(keyword in content for keyword in keywords)\<close>.\<close>

definition any_in :: "ustring list \<Rightarrow> ustring \<Rightarrow> bool" where
  "any_in keywords content = list_ex (\<lambda>keyword. sublist keyword content) keywords"

definition stem_keywords :: "ustring list" where
  "stem_keywords = [ustr ''engineer'', ustr ''computer'', ustr ''science'', ustr ''technology'',
                    ustr ''math'', ustr ''physics'', ustr ''chemistry'', ustr ''biology'', ustr ''data'']"

definition business_keywords :: "ustring list" where
  "business_keywords = [ustr ''business'', ustr ''management'', ustr ''accounting'', ustr ''finance'',
                        ustr ''marketing'', ustr ''economics'']"

definition arts_keywords :: "ustring list" where
  "arts_keywords = [ustr ''art'', ustr ''design'', ustr ''music'', ustr ''creative'', ustr ''media'',
                    ustr ''film'', ustr ''drama'', ustr ''literature'']"

definition health_keywords :: "ustring list" where
  "health_keywords = [ustr ''health'', ustr ''medicine'', ustr ''nursing'', ustr ''therapy'',
                      ustr ''medical'', ustr ''care'']"

definition education_keywords :: "ustring list" where
  "education_keywords = [ustr ''education'', ustr ''teaching'', ustr ''early learning'', ustr ''childcare'']"

text \<open>\<^verbatim>\<open>content = f"{name} {description}"\<close> of the lowered name and description.\<close>

definition tag_content :: "pylib \<Rightarrow> course \<Rightarrow> error + ustring" where
  "tag_content U course =
     (case get course (ustr ''name'') (PStr []) of
        PStr n \<Rightarrow>
          (case get course (ustr ''description'') (PStr []) of
             PStr d \<Rightarrow> Inr (lower U n @ ustr '' '' @ lower U d)
           | _ \<Rightarrow> Inl AttributeError)
      | _ \<Rightarrow> Inl AttributeError)"

text \<open>\<^verbatim>\<open>tags\<close> is a set: \<open>List.insert\<close> adds an element once, and \<^verbatim>\<open>sorted\<close> orders it.\<close>

definition tags_of_content :: "ustring \<Rightarrow> ustring" where
  "tags_of_content content =
     (let tags = [];
          tags = (if any_in stem_keywords content then List.insert (ustr ''STEM'') tags else tags);
          tags = (if any_in business_keywords content then List.insert (ustr ''Business'') tags else tags);
          tags = (if any_in arts_keywords content then List.insert (ustr ''Arts'') tags else tags);
          tags = (if any_in health_keywords content then List.insert (ustr ''Health'') tags else tags);
          tags = (if any_in education_keywords content then List.insert (ustr ''Education'') tags else tags);
          tags = (if tags = [] then List.insert (ustr ''General'') tags else tags)
      in join (ustr '', '') (sort tags))"

definition improve_tags :: "pylib \<Rightarrow> course \<Rightarrow> error + ustring" where
  "improve_tags U course = bind_err (tag_content U course) (\<lambda>content. Inr (tags_of_content content))"

text \<open>\<^verbatim>\<open>re.search(r'(\d+)', duration)\<close>: the first maximal run of digits, if there is one.\<close>

definition first_number :: "pylib \<Rightarrow> ustring \<Rightarrow> ustring option" where
  "first_number U s =
     (let ds = takeWhile (is_digit U) (dropWhile (\<lambda>c. \<not> is_digit U c) s)
      in if ds = [] then None else Some ds)"

text \<open>One of the three branches of \<^verbatim>\<open>standardize_duration\<close>; \<open>None\<close> when it falls
  through to the next one.\<close>

definition duration_unit :: "pylib \<Rightarrow> ustring \<Rightarrow> ustring \<Rightarrow> ustring \<Rightarrow> (error + ustring) option" where
  "duration_unit U word unit duration =
     (if sublist word duration then
        (case first_number U duration of
           None \<Rightarrow> None
         | Some ds \<Rightarrow>
             Some (bind_err (py_int U (PStr ds)) (\<lambda>num.
                     Inr (str_of_int num @ ustr '' '' @ unit @ (if num > 1 then ustr ''s'' else [])))))
      else None)"

definition standardize_duration :: "pylib \<Rightarrow> pyval \<Rightarrow> error + ustring" where
  "standardize_duration U duration =
     (if \<not> truthy duration then Inr []
      else case duration of
             PStr s \<Rightarrow>
               (let d = strip (lower U s)
                in case duration_unit U (ustr ''year'') (ustr ''Year'') d of
                     Some r \<Rightarrow> r
                   | None \<Rightarrow>
                 (case duration_unit U (ustr ''month'') (ustr ''Month'') d of
                     Some r \<Rightarrow> r
                   | None \<Rightarrow>
                 (case duration_unit U (ustr ''week'') (ustr ''Week'') d of
                     Some r \<Rightarrow> r
                   | None \<Rightarrow> Inr (title U d))))
           | _ \<Rightarrow> Inl AttributeError)"

text \<open>\<^verbatim>\<open>re.findall(r'\w+', s)\<close>: the maximal runs of word characters.\<close>

fun find_words :: "pylib \<Rightarrow> ustring \<Rightarrow> ustring \<Rightarrow> ustring list" where
  "find_words U cur [] = (if cur = [] then [] else [cur])"
| "find_words U cur (c # cs) =
     (if is_word U c then find_words U (cur @ [c]) cs
      else (if cur = [] then [] else [cur]) @ find_words U [] cs)"

text \<open>\<^verbatim>\<open>s.split(',')\<close>.\<close>

fun split_on :: "nat \<Rightarrow> ustring \<Rightarrow> ustring \<Rightarrow> ustring list" where
  "split_on sep cur [] = [cur]"
| "split_on sep cur (c # cs) =
     (if c = sep then cur # split_on sep [] cs else split_on sep (cur @ [c]) cs)"

definition stop_words :: "ustring list" where
  "stop_words = [ustr ''the'', ustr ''and'', ustr ''for'', ustr ''are'', ustr ''with'', ustr ''this'',
                 ustr ''that'', ustr ''course'', ustr ''programme'', ustr ''program'']"

text \<open>The lowered words of a field that are longer than \<open>n\<close>; \<^verbatim>\<open>re.findall\<close> wants a
  string.\<close>

definition field_words :: "pylib \<Rightarrow> nat \<Rightarrow> pyval \<Rightarrow> error + ustring list" where
  "field_words U n v =
     (if \<not> truthy v then Inr []
      else case v of
             PStr s \<Rightarrow> Inr (map (lower U) (filter (\<lambda>word. length word > n) (find_words U [] s)))
           | _ \<Rightarrow> Inl TypeError)"

definition tag_words :: "pylib \<Rightarrow> pyval \<Rightarrow> error + ustring list" where
  "tag_words U v =
     (if \<not> truthy v then Inr []
      else case v of
             PStr s \<Rightarrow> Inr (map (lower U) (split_on (ord CHR '','') [] s))
           | _ \<Rightarrow> Inl AttributeError)"

definition generate_keywords :: "pylib \<Rightarrow> course \<Rightarrow> error + ustring" where
  "generate_keywords U course =
     bind_err (field_words U 2 (get course (ustr ''name'') (PStr []))) (\<lambda>ws1.
     bind_err (field_words U 3 (get course (ustr ''description'') (PStr []))) (\<lambda>ws2.
     bind_err (tag_words U (get course (ustr ''tags'') (PStr []))) (\<lambda>ws3.
       let keywords = remdups (ws1 @ ws2 @ ws3);
           keywords = filter (\<lambda>word. word \<notin> set stop_words) keywords
       in Inr (join (ustr '', '') (sort keywords)))))"

definition enhance_course_data :: "pylib \<Rightarrow> course \<Rightarrow> error + course" where
  "enhance_course_data U course =
     bind_err (if \<not> truthy (get course (ustr ''cao_code'') PNone)
               then bind_err (extract_cao_code_from_name U (get course (ustr ''name'') (PStr [])))
                      (\<lambda>code. Inr (course(ustr ''cao_code'' \<mapsto> PStr code)))
               else Inr course) (\<lambda>enhanced.
     bind_err (improve_tags U enhanced) (\<lambda>tags.
     let enhanced = enhanced(ustr ''tags'' \<mapsto> PStr tags) in
     bind_err (standardize_duration U (get enhanced (ustr ''duration'') (PStr []))) (\<lambda>duration.
     let enhanced = enhanced(ustr ''duration'' \<mapsto> PStr duration) in
     bind_err (generate_keywords U enhanced) (\<lambda>keywords.
     Inr (enhanced(ustr ''keywords'' \<mapsto> PStr keywords))))))"

section \<open>The pipeline\<close>

text \<open>
  \<^verbatim>\<open>log_validation_stats\<close> writes to the log only, but it computes
  \<^verbatim>\<open>stats['valid_records']/stats['total_records']*100\<close> on the way.
\<close>

definition log_validation_stats :: "validation_stats \<Rightarrow> error + unit" where
  "log_validation_stats stats = (if total_records stats = 0 then Inl ZeroDivisionError else Inr ())"

definition clean_course_data :: "pylib \<Rightarrow> validation_stats \<Rightarrow> course list \<Rightarrow> error + (course list \<times> validation_stats)" where
  "clean_course_data U st courses =
     (let st = st\<lparr>total_records := length courses\<rparr> in
      bind_err (map_err (clean_single_course U) courses) (\<lambda>cleaned_courses.
      bind_err (validate_all U st cleaned_courses) (\<lambda>(valid_courses, st).
      bind_err (remove_duplicates U st valid_courses) (\<lambda>(unique_courses, st).
      bind_err (map_err (enhance_course_data U) unique_courses) (\<lambda>enhanced_courses.
      let st = st\<lparr>valid_records := length enhanced_courses\<rparr> in
      bind_err (log_validation_stats st) (\<lambda>_. Inr (enhanced_courses, st)))))))"

section \<open>Records used as examples\<close>

text \<open>Two records whose name is empty, and two records of one course whose names differ
  in case only.\<close>

definition blank_a :: course where
  "blank_a = [ustr ''name'' \<mapsto> PStr [], ustr ''points'' \<mapsto> PInt 300]"

definition blank_b :: course where
  "blank_b = [ustr ''name'' \<mapsto> PStr [], ustr ''points'' \<mapsto> PInt 400]"

definition eng_a :: course where
  "eng_a = [ustr ''name'' \<mapsto> PStr (ustr ''BEng in Computer Engineering''), ustr ''cao_code'' \<mapsto> PStr [],
            ustr ''nfq_level'' \<mapsto> PInt 8, ustr ''points'' \<mapsto> PInt 450]"

definition eng_b :: course where
  "eng_b = [ustr ''name'' \<mapsto> PStr (ustr ''BENG in computer engineering''), ustr ''cao_code'' \<mapsto> PStr [],
            ustr ''nfq_level'' \<mapsto> PInt 8, ustr ''points'' \<mapsto> PInt 500]"

text \<open>Two records that fail validation and whose names agree on the first 50 characters.\<close>

definition day_course :: course where
  "day_course = [ustr ''name'' \<mapsto> PStr (ustr ''Bachelor of Science in Computing and Information Technology (Day)'')]"

definition evening_course :: course where
  "evening_course = [ustr ''name'' \<mapsto> PStr (ustr ''Bachelor of Science in Computing and Information Technology (Evening)''),
                     ustr ''nfq_level'' \<mapsto> PInt 4]"

text \<open>A record without a level, and a record whose level is the string \<^verbatim>\<open>"9"\<close>.\<close>

definition no_level_course :: course where
  "no_level_course = [ustr ''name'' \<mapsto> PStr (ustr ''Computer Science'')]"

definition level_nine_course :: course where
  "level_nine_course = [ustr ''name'' \<mapsto> PStr (ustr ''MSc in Accounting''), ustr ''nfq_level'' \<mapsto> PStr (ustr ''9'')]"

text \<open>A footer link scraped as a course, with every other field in order.\<close>

definition contact_us_course :: course where
  "contact_us_course = [ustr ''name'' \<mapsto> PStr (ustr ''Contact Us''), ustr ''description'' \<mapsto> PStr (ustr ''Bachelor of Arts''),
                        ustr ''nfq_level'' \<mapsto> PInt 8, ustr ''points'' \<mapsto> PInt 450]"

text \<open>A course of two categories.\<close>

definition computing_business_course :: course where
  "computing_business_course =
     [ustr ''name'' \<mapsto> PStr (ustr ''Computer Science with Business''),
      ustr ''description'' \<mapsto> PStr (ustr ''A four year degree'')]"

section \<open>The notions of the specification\<close>

text \<open>
  These definitions follow the words of the specification, not the code; the theorems
  below compare the code with them.

  A CAO code is 2 to 4 letters immediately followed by 3 to 4 digits.
\<close>

definition cao_code_shape :: "pylib \<Rightarrow> ustring \<Rightarrow> ustring \<Rightarrow> bool" where
  "cao_code_shape U letters digits =
     (2 \<le> length letters \<and> length letters \<le> 4 \<and> list_all is_AZ letters \<and>
      3 \<le> length digits \<and> length digits \<le> 4 \<and> list_all (is_digit U) digits)"

text \<open>The five categories with their keyword lists, in the order of their names, and the
  names of those that have a keyword in a given content.\<close>

definition categories :: "(ustring \<times> ustring list) list" where
  "categories = [(ustr ''Arts'', arts_keywords), (ustr ''Business'', business_keywords),
                 (ustr ''Education'', education_keywords), (ustr ''Health'', health_keywords),
                 (ustr ''STEM'', stem_keywords)]"

definition matching_categories :: "ustring \<Rightarrow> ustring list" where
  "matching_categories content =
     map fst (filter (\<lambda>category. any_in (snd category) content) categories)"

definition all_keywords :: "ustring list" where
  "all_keywords = stem_keywords @ business_keywords @ arts_keywords @ health_keywords @ education_keywords"

section \<open>Facts about the library functions\<close>

lemmas char_defs = ustr_def ord_def isspace_def isascii_def is_AZ_def is_az_def is_09_def
  is_word_def is_digit_def digit_val_def ascii_lower_def ascii_upper_def

lemmas rule_defs = required_fields_def valid_nfq_levels_def max_course_name_length_def
  min_course_name_length_def invalid_names_def

lemmas record_defs = blank_a_def blank_b_def eng_a_def eng_b_def day_course_def evening_course_def
  no_level_course_def level_nine_course_def contact_us_course_def computing_business_course_def

lemma py_int_errors:
  "py_int U x = Inl e \<Longrightarrow> e = ValueError \<or> e = TypeError \<or> e = OverflowError"
  by (induction U x rule: py_int.induct) (auto split: option.splits)

lemma py_int_overflow_iff:
  "py_int U x = Inl OverflowError \<longleftrightarrow> (\<exists>b. x = PFloat (Infinity b))"
  by (induction U x rule: py_int.induct) (auto split: option.splits)

section \<open>The numeric cleaners\<close>

text \<open>
  Every value except the two infinite floats is cleaned to a level of the valid set and
  to a number of points between 0 and 625.
\<close>

lemma clean_nfq_level_range:
  assumes "\<forall>b. x \<noteq> PFloat (Infinity b)"
  shows "\<exists>n. clean_nfq_level U x = Inr n \<and> n \<in> {5, 6, 7, 8, 9, 10}"
proof (cases "py_int U x")
  case (Inl e)
  with assms py_int_overflow_iff [of U x] py_int_errors [of U x e] have "caught e"
    by (auto simp: caught_def)
  with Inl show ?thesis by (simp add: clean_nfq_level_def)
next
  case (Inr n)
  then show ?thesis by (auto simp: clean_nfq_level_def valid_nfq_levels_def)
qed

lemma clean_points_range:
  assumes "\<forall>b. x \<noteq> PFloat (Infinity b)"
  shows "\<exists>n. clean_points U x = Inr n \<and> 0 \<le> n \<and> n \<le> 625"
proof (cases "py_int U x")
  case (Inl e)
  with assms py_int_overflow_iff [of U x] py_int_errors [of U x e] have "caught e"
    by (auto simp: caught_def)
  with Inl show ?thesis by (simp add: clean_points_def)
next
  case (Inr n)
  then show ?thesis by (auto simp: clean_points_def)
qed

text \<open>
  Claim C3. The claim is that both cleaners return a value of their range for every
  input. An infinite float is true, \<^verbatim>\<open>int()\<close> raises \<^verbatim>\<open>OverflowError\<close> on it, and the
  \<^verbatim>\<open>except (ValueError, TypeError)\<close> of the two cleaners lets that exception pass:
  on this input neither cleaner returns.
\<close>

theorem infinity_escapes_cleaners:
  "clean_nfq_level U (PFloat (Infinity True)) = Inl OverflowError \<and>
   clean_points U (PFloat (Infinity True)) = Inl OverflowError"
  by (simp add: clean_nfq_level_def clean_points_def caught_def)

section \<open>Cleaning of text\<close>

text \<open>
  Claim C2. The claim is that cleaning a text twice gives the same as cleaning it once,
  and that a cleaned text has no run of whitespace. Runs of whitespace are collapsed
  before the characters outside the allowlist are deleted, so a deleted character that
  stood between two spaces leaves a run behind: \<^verbatim>\<open>"Arts : History"\<close> is cleaned to
  \<^verbatim>\<open>"Arts  History"\<close> with two spaces, which a second cleaning turns into
  \<^verbatim>\<open>"Arts History"\<close>.
\<close>

theorem clean_text_field_twice_differs:
  "clean_text_field U (PStr (ustr ''Arts : History'')) = ustr ''Arts  History'' \<and>
   clean_text_field U (PStr (ustr ''Arts  History'')) = ustr ''Arts History''"
  unfolding clean_text_field_def Let_def
  by (simp add: char_defs strip_def replace_char_def allowed_def)

section \<open>The batch\<close>

text \<open>
  Claim C1. The claim is that \<^verbatim>\<open>clean_course_data\<close> returns for every list of records,
  and returns an empty list with \<^verbatim>\<open>total_records = 0\<close> for the empty list. On the empty
  list all four steps pass, and then \<^verbatim>\<open>log_validation_stats\<close> divides the number of
  valid records by \<^verbatim>\<open>total_records\<close>, which is 0: the call raises
  \<^verbatim>\<open>ZeroDivisionError\<close> and returns nothing.
\<close>

theorem clean_course_data_empty_raises:
  "clean_course_data U st [] = Inl ZeroDivisionError"
  unfolding clean_course_data_def Let_def
  by (simp add: bind_err_def remove_duplicates_def log_validation_stats_def)

section \<open>Deduplication keeps the first record of a key\<close>

lemma dedup_loop_result:
  assumes "dedup_loop U seen uniq cnt cs = Inr (out, n)"
  shows "\<exists>new. out = uniq @ new \<and> subseq new cs \<and> n + length new = cnt + length cs \<and>
           (\<forall>k. filter (\<lambda>r. dedup_key U r = Inr k) new =
                  (if k = [] \<or> k \<in> seen then []
                   else case find (\<lambda>x. dedup_key U x = Inr k) cs of None \<Rightarrow> [] | Some f \<Rightarrow> [f]))"
  using assms
proof (induction cs arbitrary: seen uniq cnt)
  case Nil
  then show ?case by simp
next
  case (Cons c cs)
  from Cons.prems obtain kc where kc: "dedup_key U c = Inr kc"
    by (cases "dedup_key U c") (auto simp: bind_err_def)
  show ?case
  proof (cases "kc \<noteq> [] \<and> kc \<notin> seen")
    case True
    with Cons.prems kc have "dedup_loop U (insert kc seen) (uniq @ [c]) cnt cs = Inr (out, n)"
      by (simp add: bind_err_def)
    from Cons.IH [OF this] obtain new where new: "out = (uniq @ [c]) @ new" "subseq new cs"
      "n + length new = cnt + length cs"
      "\<forall>k. filter (\<lambda>r. dedup_key U r = Inr k) new =
                  (if k = [] \<or> k \<in> insert kc seen then []
                   else case find (\<lambda>x. dedup_key U x = Inr k) cs of None \<Rightarrow> [] | Some f \<Rightarrow> [f])"
      by blast
    have "out = uniq @ (c # new)" using new(1) by simp
    moreover have "subseq (c # new) (c # cs)" using new(2) by simp
    moreover have "n + length (c # new) = cnt + length (c # cs)" using new(3) by simp
    moreover have "\<forall>k. filter (\<lambda>r. dedup_key U r = Inr k) (c # new) =
                  (if k = [] \<or> k \<in> seen then []
                   else case find (\<lambda>x. dedup_key U x = Inr k) (c # cs) of None \<Rightarrow> [] | Some f \<Rightarrow> [f])"
      using new(4) kc True by auto
    ultimately show ?thesis by blast
  next
    case False
    with Cons.prems kc have "dedup_loop U seen uniq (cnt + 1) cs = Inr (out, n)"
      by (auto simp add: bind_err_def)
    from Cons.IH [OF this] obtain new where new: "out = uniq @ new" "subseq new cs"
      "n + length new = cnt + 1 + length cs"
      "\<forall>k. filter (\<lambda>r. dedup_key U r = Inr k) new =
                  (if k = [] \<or> k \<in> seen then []
                   else case find (\<lambda>x. dedup_key U x = Inr k) cs of None \<Rightarrow> [] | Some f \<Rightarrow> [f])"
      by blast
    have "subseq new (c # cs)" using new(2) by (rule list_emb_Cons)
    moreover have "n + length new = cnt + length (c # cs)" using new(3) by simp
    moreover have "\<forall>k. filter (\<lambda>r. dedup_key U r = Inr k) new =
                  (if k = [] \<or> k \<in> seen then []
                   else case find (\<lambda>x. dedup_key U x = Inr k) (c # cs) of None \<Rightarrow> [] | Some f \<Rightarrow> [f])"
      using new(4) kc False by auto
    ultimately show ?thesis using new(1) by blast
  qed
qed


lemma dedup_key_empty_iff:
  "dedup_key U c = Inr [] \<longleftrightarrow>
     (\<exists>n k. get c (ustr ''name'') (PStr []) = PStr n \<and> get c (ustr ''cao_code'') (PStr []) = PStr k \<and>
            strip (lower U n) = [] \<and> strip k = [])"
  by (auto simp: dedup_key_def Let_def split: pyval.splits)

text \<open>
  Claim C5, as amended. The claim promises exactly one record for every key that two
  records of the input share. The loop keeps a record only \<^verbatim>\<open>if key and key not in
  seen_keys\<close>, so for the empty key it keeps none. For every other key the claim holds: when \<^verbatim>\<open>remove_duplicates\<close> returns and
  some record of the input has the non-empty key \<open>k\<close>, the output holds exactly one
  record with key \<open>k\<close>, the first record of the input with that key, and the output is a
  subsequence of the input, so the records kept stand in their input order.
\<close>

theorem remove_duplicates_first_wins:
  assumes "remove_duplicates U st cs = Inr (out, st')"
    and "c \<in> set cs" and "dedup_key U c = Inr k" and "k \<noteq> []"
  shows "subseq out cs \<and>
         (\<exists>f. find (\<lambda>x. dedup_key U x = Inr k) cs = Some f \<and>
              filter (\<lambda>r. dedup_key U r = Inr k) out = [f])"
proof -
  from assms(1) obtain n where "dedup_loop U {} [] 0 cs = Inr (out, n)"
    by (auto simp: remove_duplicates_def bind_err_def split: sum.splits)
  from dedup_loop_result [OF this] have sub: "subseq out cs"
    and flt: "filter (\<lambda>r. dedup_key U r = Inr k) out =
              (case find (\<lambda>x. dedup_key U x = Inr k) cs of None \<Rightarrow> [] | Some f \<Rightarrow> [f])"
    using assms(4) by auto
  from assms(2,3) obtain f where "find (\<lambda>x. dedup_key U x = Inr k) cs = Some f"
    by (cases "find (\<lambda>x. dedup_key U x = Inr k) cs") (auto simp: find_None_iff)
  with sub flt show ?thesis by simp
qed

lemma dedup_key_examples:
  "dedup_key ascii_lib blank_a = Inr []" "dedup_key ascii_lib blank_b = Inr []"
  "dedup_key ascii_lib eng_a = Inr (ustr ''beng in computer engineering'')"
  "dedup_key ascii_lib eng_b = Inr (ustr ''beng in computer engineering'')"
  unfolding dedup_key_def Let_def
  by (simp_all add: record_defs get_def lower_def strip_def char_defs)

theorem remove_duplicates_first_wins_witness:
  "remove_duplicates ascii_lib init_stats [eng_a, eng_b] = Inr ([eng_a], init_stats\<lparr>duplicates_removed := 1\<rparr>) \<and>
   dedup_key ascii_lib eng_b = Inr (ustr ''beng in computer engineering'') \<and>
   subseq [eng_a] [eng_a, eng_b] \<and>
   find (\<lambda>x. dedup_key ascii_lib x = Inr (ustr ''beng in computer engineering'')) [eng_a, eng_b] = Some eng_a \<and>
   filter (\<lambda>r. dedup_key ascii_lib r = Inr (ustr ''beng in computer engineering'')) [eng_a] = [eng_a]"
proof -
  have run: "remove_duplicates ascii_lib init_stats [eng_a, eng_b] = Inr ([eng_a], init_stats\<lparr>duplicates_removed := 1\<rparr>)"
    by (simp add: remove_duplicates_def bind_err_def dedup_key_examples ustr_def ord_def)
  have ne: "ustr ''beng in computer engineering'' \<noteq> []" by (simp add: ustr_def)
  show ?thesis
    using remove_duplicates_first_wins [OF run _ dedup_key_examples(4) ne] run
    by (simp add: dedup_key_examples)
qed

text \<open>
  Two records whose key is the same empty string: the output holds neither of them.
\<close>

theorem remove_duplicates_blank_records:
  "dedup_key ascii_lib blank_a = Inr [] \<and> dedup_key ascii_lib blank_b = Inr [] \<and>
   remove_duplicates ascii_lib init_stats [blank_a, blank_b] = Inr ([], init_stats\<lparr>duplicates_removed := 2\<rparr>)"
  by (simp add: remove_duplicates_def bind_err_def dedup_key_examples)

text \<open>
  Claim C9. A record whose key is the empty string (by \<open>dedup_key_empty_iff\<close>: its
  lowered and stripped name and its stripped CAO code are both empty) is dropped by the
  loop and counted as a duplicate whatever has been seen before, so also on its first
  occurrence. Hence no record of the output of \<^verbatim>\<open>remove_duplicates\<close> has an empty key, and
  the counter is the number of records of the input that are not in the output.
\<close>

theorem empty_key_always_dropped:
  assumes "dedup_key U c = Inr []" and "remove_duplicates U st cs = Inr (out, st')"
  shows "dedup_loop U seen uniq cnt (c # rest) = dedup_loop U seen uniq (cnt + 1) rest \<and>
         c \<notin> set out \<and> (\<forall>r\<in>set out. dedup_key U r \<noteq> Inr []) \<and>
         duplicates_removed st' + length out = length cs"
proof -
  from assms(2) obtain n where loop: "dedup_loop U {} [] 0 cs = Inr (out, n)"
    and st': "st' = st\<lparr>duplicates_removed := n\<rparr>"
    by (auto simp: remove_duplicates_def bind_err_def split: sum.splits)
  from dedup_loop_result [OF loop] have cnt: "n + length out = length cs"
    and "filter (\<lambda>r. dedup_key U r = Inr []) out = []"
    by auto
  then have none: "\<forall>r\<in>set out. dedup_key U r \<noteq> Inr []"
    by (simp add: filter_empty_conv)
  with assms(1) have "c \<notin> set out" by auto
  moreover have "dedup_loop U seen uniq cnt (c # rest) = dedup_loop U seen uniq (cnt + 1) rest"
    using assms(1) by (simp add: bind_err_def)
  ultimately show ?thesis using none cnt st' by simp
qed

theorem empty_key_always_dropped_witness:
  "dedup_key ascii_lib blank_a = Inr [] \<and>
   remove_duplicates ascii_lib init_stats [blank_a, eng_a, blank_b] = Inr ([eng_a], init_stats\<lparr>duplicates_removed := 2\<rparr>) \<and>
   dedup_loop ascii_lib {} [] 0 [blank_a] = Inr ([], 1) \<and>
   blank_a \<notin> set [eng_a] \<and>
   duplicates_removed (init_stats\<lparr>duplicates_removed := 2\<rparr>) + length [eng_a] = length [blank_a, eng_a, blank_b]"
proof -
  have run: "remove_duplicates ascii_lib init_stats [blank_a, eng_a, blank_b] = Inr ([eng_a], init_stats\<lparr>duplicates_removed := 2\<rparr>)"
    by (simp add: remove_duplicates_def bind_err_def dedup_key_examples ustr_def ord_def)
  show ?thesis
    using empty_key_always_dropped [OF dedup_key_examples(1) run, of "{}" "[]" 0 "[]"] run
    by (simp add: dedup_key_examples)
qed

section \<open>Rejection reasons\<close>

lemma map_of_dict_set: "map_of (dict_set d k v) = (map_of d)(k \<mapsto> v)"
  by (induction d k v rule: dict_set.induct) (auto simp: fun_eq_iff)

lemma keys_dict_set:
  "map fst (dict_set d k v) = (if k \<in> set (map fst d) then map fst d else map fst d @ [k])"
  by (induction d k v rule: dict_set.induct) auto

lemma distinct_dict_set: "distinct (map fst d) \<Longrightarrow> distinct (map fst (dict_set d k v))"
  by (simp add: keys_dict_set)

lemma only_entry:
  "distinct (map fst d) \<Longrightarrow> map_of d k = Some v \<Longrightarrow> filter (\<lambda>kv. fst kv = k) d = [(k, v)]"
proof (induction d)
  case Nil
  then show ?case by simp
next
  case (Cons p d)
  show ?case
  proof (cases "fst p = k")
    case True
    with Cons.prems have "p = (k, v)" by (cases p) simp
    moreover from True Cons.prems have "k \<notin> fst ` set d" by simp
    then have "\<forall>kv\<in>set d. fst kv \<noteq> k" by auto
    then have "filter (\<lambda>kv. fst kv = k) d = []" by (simp add: filter_empty_conv)
    ultimately show ?thesis by simp
  next
    case False
    with Cons show ?thesis by (cases p) auto
  qed
qed

lemma validate_course_False:
  assumes "validate_course U st c = Inr (False, st')"
  shows "\<exists>errs key. course_errors U c = Inr errs \<and> errs \<noteq> [] \<and> course_name c = Inr key \<and>
           st' = st\<lparr>validation_errors := dict_set (validation_errors st) key errs\<rparr>"
  using assms by (auto simp: validate_course_def bind_err_def split: sum.splits if_splits)

lemma validate_course_True:
  assumes "validate_course U st c = Inr (True, st')"
  shows "course_errors U c = Inr [] \<and> st' = st"
  using assms by (auto simp: validate_course_def bind_err_def split: sum.splits if_splits)

lemma validate_all_Cons:
  assumes "validate_all U st (c # cs) = Inr (valid, st')"
  shows "\<exists>ok st1 rest. validate_course U st c = Inr (ok, st1) \<and> validate_all U st1 cs = Inr (rest, st') \<and>
           valid = (if ok then c # rest else rest)"
  using assms by (auto simp: bind_err_def split: sum.splits)

lemma validate_all_append:
  assumes "validate_all U st (xs @ ys) = Inr (valid, st')"
  shows "\<exists>v1 st1 v2. validate_all U st xs = Inr (v1, st1) \<and> validate_all U st1 ys = Inr (v2, st') \<and>
           valid = v1 @ v2"
  using assms
proof (induction xs arbitrary: st valid)
  case Nil
  then show ?case by simp
next
  case (Cons x xs)
  from validate_all_Cons [of U st x "xs @ ys" valid st'] Cons.prems
  obtain ok st1 rest where x: "validate_course U st x = Inr (ok, st1)"
    and r: "validate_all U st1 (xs @ ys) = Inr (rest, st')" and v: "valid = (if ok then x # rest else rest)"
    by auto
  from Cons.IH [OF r] obtain v1 st2 v2 where "validate_all U st1 xs = Inr (v1, st2)"
    "validate_all U st2 ys = Inr (v2, st')" "rest = v1 @ v2" by blast
  with x v show ?case by (auto simp: bind_err_def)
qed

lemma validate_all_keeps_key:
  assumes "validate_all U st cs = Inr (valid, st')"
    and "\<forall>d\<in>set cs. course_name d = Inr key \<longrightarrow> course_errors U d = Inr []"
  shows "map_of (validation_errors st') key = map_of (validation_errors st) key"
  using assms
proof (induction cs arbitrary: st valid)
  case Nil
  then show ?case by simp
next
  case (Cons c cs)
  from validate_all_Cons [OF Cons.prems(1)]
  obtain ok st1 rest where c: "validate_course U st c = Inr (ok, st1)"
    and r: "validate_all U st1 cs = Inr (rest, st')" by auto
  from Cons.prems(2) have "\<forall>d\<in>set cs. course_name d = Inr key \<longrightarrow> course_errors U d = Inr []" by simp
  from Cons.IH [OF r this] have eq: "map_of (validation_errors st') key = map_of (validation_errors st1) key" .
  have "map_of (validation_errors st1) key = map_of (validation_errors st) key"
  proof (cases ok)
    case True
    with c validate_course_True [of U st c st1] show ?thesis by simp
  next
    case False
    with c validate_course_False [of U st c st1] obtain errs k where
      e: "course_errors U c = Inr errs" "errs \<noteq> []" "course_name c = Inr k"
      "st1 = st\<lparr>validation_errors := dict_set (validation_errors st) k errs\<rparr>" by auto
    with Cons.prems(2) have "k \<noteq> key" by auto
    with e show ?thesis by (simp add: map_of_dict_set)
  qed
  with eq show ?case by simp
qed

lemma validate_all_distinct:
  assumes "validate_all U st cs = Inr (valid, st')" and "distinct (map fst (validation_errors st))"
  shows "distinct (map fst (validation_errors st'))"
  using assms
proof (induction cs arbitrary: st valid)
  case Nil
  then show ?case by simp
next
  case (Cons c cs)
  from validate_all_Cons [OF Cons.prems(1)]
  obtain ok st1 rest where c: "validate_course U st c = Inr (ok, st1)"
    and r: "validate_all U st1 cs = Inr (rest, st')" by auto
  have "distinct (map fst (validation_errors st1))"
  proof (cases ok)
    case True
    with c validate_course_True [of U st c st1] Cons.prems(2) show ?thesis by simp
  next
    case False
    with c validate_course_False [of U st c st1] Cons.prems(2) show ?thesis
      by (auto simp: distinct_dict_set)
  qed
  from Cons.IH [OF r this] show ?case .
qed

text \<open>
  Claim C10. The reasons of a rejected record are stored under the first 50 characters of
  its name (of \<^verbatim>\<open>'Unknown'\<close> when it has no name). In a batch validated from statistics
  whose keys are distinct, let \<open>c\<close> be a failing record with reasons \<open>errs\<close> and key
  \<open>key\<close> such that no later record of the batch fails with the same key. Then, whatever
  failed under that key before \<open>c\<close>, the statistics hold exactly one entry for \<open>key\<close>
  afterwards, and it carries the reasons of \<open>c\<close>.
\<close>

theorem last_rejection_replaces_earlier:
  assumes "validate_all U st (pre @ c # post) = Inr (valid, st')"
    and "distinct (map fst (validation_errors st))"
    and "course_errors U c = Inr errs" and "errs \<noteq> []" and "course_name c = Inr key"
    and "\<forall>d\<in>set post. course_name d = Inr key \<longrightarrow> course_errors U d = Inr []"
  shows "filter (\<lambda>kv. fst kv = key) (validation_errors st') = [(key, errs)] \<and>
         (\<exists>name. get c (ustr ''name'') (PStr (ustr ''Unknown'')) = PStr name \<and> key = take 50 name)"
proof -
  from validate_all_append [OF assms(1)] obtain v1 st1 v2 where
    pre: "validate_all U st pre = Inr (v1, st1)" and rest: "validate_all U st1 (c # post) = Inr (v2, st')"
    by blast
  from validate_all_Cons [OF rest] obtain ok st2 v3 where
    c: "validate_course U st1 c = Inr (ok, st2)" and post: "validate_all U st2 post = Inr (v3, st')"
    by blast
  from c assms(3,4) have "\<not> ok"
    using validate_course_True [of U st1 c st2] by (cases ok) auto
  with c validate_course_False [of U st1 c st2] assms(3,5)
  have st2: "st2 = st1\<lparr>validation_errors := dict_set (validation_errors st1) key errs\<rparr>" by auto
  have "map_of (validation_errors st') key = map_of (validation_errors st2) key"
    using validate_all_keeps_key [OF post assms(6)] .
  also have "\<dots> = Some errs" by (simp add: st2 map_of_dict_set)
  finally have look: "map_of (validation_errors st') key = Some errs" .
  have "distinct (map fst (validation_errors st'))"
    using validate_all_distinct [OF assms(1,2)] .
  from only_entry [OF this look] have one: "filter (\<lambda>kv. fst kv = key) (validation_errors st') = [(key, errs)]" .
  from assms(5) have "\<exists>name. get c (ustr ''name'') (PStr (ustr ''Unknown'')) = PStr name \<and> key = take 50 name"
    by (auto simp: course_name_def split: pyval.splits)
  with one show ?thesis by simp
qed

lemma day_course_errors:
  "course_errors ascii_lib day_course =
     Inr [ustr ''Missing required field: nfq_level'', ustr ''Invalid NFQ level: None'']"
  unfolding course_errors_def Let_def
  by (simp add: day_course_def get_def bind_err_def missing_required_def rule_defs system_page_def
        lower_def sublist_code nfq_rule_ok_def nfq_message_def py_in_ints_def char_defs)

lemma evening_course_errors:
  "course_errors ascii_lib evening_course = Inr [ustr ''Invalid NFQ level: 4'']"
  unfolding course_errors_def Let_def
  by (simp add: evening_course_def get_def bind_err_def missing_required_def rule_defs system_page_def
        lower_def sublist_code nfq_rule_ok_def nfq_message_def py_in_ints_def str_of_int_def str_of_nat.simps char_defs)

lemma day_evening_names:
  "course_name day_course = Inr (ustr ''Bachelor of Science in Computing and Information T'')"
  "course_name evening_course = Inr (ustr ''Bachelor of Science in Computing and Information T'')"
  by (simp_all add: course_name_def day_course_def evening_course_def get_def ustr_def ord_def)

theorem last_rejection_replaces_earlier_witness:
  "validate_all ascii_lib init_stats [day_course, evening_course] =
     Inr ([], init_stats\<lparr>validation_errors :=
                [(ustr ''Bachelor of Science in Computing and Information T'', [ustr ''Invalid NFQ level: 4''])]\<rparr>) \<and>
   course_errors ascii_lib day_course =
     Inr [ustr ''Missing required field: nfq_level'', ustr ''Invalid NFQ level: None''] \<and>
   course_name day_course = Inr (ustr ''Bachelor of Science in Computing and Information T'') \<and>
   course_name evening_course = Inr (ustr ''Bachelor of Science in Computing and Information T'') \<and>
   filter (\<lambda>kv. fst kv = ustr ''Bachelor of Science in Computing and Information T'')
     [(ustr ''Bachelor of Science in Computing and Information T'', [ustr ''Invalid NFQ level: 4''])] =
     [(ustr ''Bachelor of Science in Computing and Information T'', [ustr ''Invalid NFQ level: 4''])]"
proof -
  have run: "validate_all ascii_lib init_stats ([day_course] @ evening_course # []) =
     Inr ([], init_stats\<lparr>validation_errors :=
                [(ustr ''Bachelor of Science in Computing and Information T'', [ustr ''Invalid NFQ level: 4''])]\<rparr>)"
    by (simp add: validate_course_def bind_err_def day_course_errors evening_course_errors
          day_evening_names init_stats_def)
  have d: "distinct (map fst (validation_errors init_stats))" by (simp add: init_stats_def)
  have ne: "[ustr ''Invalid NFQ level: 4''] \<noteq> []" by simp
  show ?thesis
    using last_rejection_replaces_earlier [OF run d evening_course_errors ne day_evening_names(2)] run
    by (simp add: day_course_errors day_evening_names)
qed

section \<open>Facts about string literals\<close>

lemma ustr_eq_iff [simp]: "ustr a = ustr b \<longleftrightarrow> a = b"
  by (simp add: ustr_def ord_def inj_on_def inj_map_eq_map)

lemma ustr_Nil_iff [simp]: "ustr a = [] \<longleftrightarrow> a = []" "[] = ustr a \<longleftrightarrow> a = []"
  by (auto simp: ustr_def)

lemma length_ustr [simp]: "length (ustr s) = length s"
  by (simp add: ustr_def)

section \<open>The level of a cleaned record\<close>

lemma fold_text_fields:
  "distinct fs \<Longrightarrow>
   fold (\<lambda>field cleaned. case cleaned field of None \<Rightarrow> cleaned
                          | Some v \<Rightarrow> cleaned(field \<mapsto> PStr (f v))) fs m k =
   (if k \<in> set fs then map_option (\<lambda>v. PStr (f v)) (m k) else m k)"
proof (induction fs arbitrary: m)
  case Nil
  then show ?case by simp
next
  case (Cons a fs)
  then show ?case by (cases "m a") auto
qed

lemma distinct_text_fields: "distinct text_fields"
  by (simp add: text_fields_def ustr_def ord_def)

lemma clean_text_fields_apply:
  "clean_text_fields U course k =
     (if k \<in> set text_fields then map_option (\<lambda>v. PStr (clean_text_field U v)) (course k) else course k)"
  unfolding clean_text_fields_def by (rule fold_text_fields [OF distinct_text_fields])

lemma clean_nfq_level_valid: "clean_nfq_level U v = Inr n \<Longrightarrow> n \<in> set valid_nfq_levels"
  by (auto simp: clean_nfq_level_def valid_nfq_levels_def split: if_splits sum.splits)

lemma clean_numeric_Inr:
  assumes "clean_numeric f key m = Inr m'"
  shows "(m key = None \<and> m' = m) \<or> (\<exists>v n. m key = Some v \<and> f v = Inr n \<and> m' = m(key \<mapsto> PInt n))"
  using assms by (auto simp: clean_numeric_def bind_err_def split: option.splits sum.splits)

lemma clean_single_course_Inr:
  assumes "clean_single_course U raw = Inr c"
  shows "\<exists>c0 c1 c2. 
            c0 = (case clean_text_fields U raw (ustr ''cao_code'') of None \<Rightarrow> clean_text_fields U raw
                  | Some v \<Rightarrow> (clean_text_fields U raw)(ustr ''cao_code'' \<mapsto> PStr (standardize_cao_code U v))) \<and>
            clean_numeric (clean_nfq_level U) (ustr ''nfq_level'') c0 = Inr c1 \<and>
            clean_numeric (clean_points U) (ustr ''points'') c1 = Inr c2 \<and>
            clean_numeric (clean_college_id U) (ustr ''college_id'') c2 = Inr c"
  using assms unfolding clean_single_course_def Let_def
  by (auto simp: bind_err_def split: sum.splits)

lemma course_errors_Inr:
  assumes "course_errors U c = Inr errs"
  shows "\<exists>n sys.
           errs = missing_required c
                  @ (if truthy (get c (ustr ''name'') (PStr [])) \<and> n > max_course_name_length
                     then [ustr ''Course name too long: '' @ str_of_nat n @ ustr '' chars''] else [])
                  @ (if \<not> truthy (get c (ustr ''name'') (PStr [])) \<or> n < min_course_name_length
                     then [ustr ''Course name too short: '' @ str_of_nat n @ ustr '' chars''] else [])
                  @ (if sys then [ustr ''Not a course entry (system page)''] else [])
                  @ (if \<not> nfq_rule_ok c then [nfq_message U c] else []) \<and>
           (if truthy (get c (ustr ''name'') (PStr []))
            then \<exists>s. get c (ustr ''name'') (PStr []) = PStr s \<and> n = length s \<and> sys = system_page U s
            else n = 0 \<and> \<not> sys)"
proof -
  let ?name = "get c (ustr ''name'') (PStr [])"
  from assms obtain n where n: "(if truthy ?name then py_len ?name else Inr 0) = Inr n"
    unfolding course_errors_def Let_def bind_err_def by (auto split: sum.splits)
  from assms n obtain sys where
    sys: "(if truthy ?name then (case ?name of PStr s \<Rightarrow> Inr (system_page U s) | _ \<Rightarrow> Inl AttributeError)
          else Inr False) = Inr sys"
    unfolding course_errors_def Let_def bind_err_def by (auto split: sum.splits)
  from assms n sys have errs: "errs = missing_required c
                  @ (if truthy ?name \<and> n > max_course_name_length
                     then [ustr ''Course name too long: '' @ str_of_nat n @ ustr '' chars''] else [])
                  @ (if \<not> truthy ?name \<or> n < min_course_name_length
                     then [ustr ''Course name too short: '' @ str_of_nat n @ ustr '' chars''] else [])
                  @ (if sys then [ustr ''Not a course entry (system page)''] else [])
                  @ (if \<not> nfq_rule_ok c then [nfq_message U c] else [])"
    unfolding course_errors_def Let_def bind_err_def by (simp split: sum.splits split del: if_split)
  have "if truthy ?name
        then \<exists>s. ?name = PStr s \<and> n = length s \<and> sys = system_page U s
        else n = 0 \<and> \<not> sys"
  proof (cases "truthy ?name")
    case True
    with sys obtain s where "?name = PStr s" "sys = system_page U s"
      by (cases ?name) auto
    with True n show ?thesis by auto
  next
    case False
    with n sys show ?thesis by auto
  qed
  with errs show ?thesis by blast
qed

lemma missing_required_heads:
  "e \<in> set (missing_required c) \<Longrightarrow> \<exists>t. e = ustr ''Missing required field: '' @ t"
  by (auto simp: missing_required_def split: option.splits if_splits)

lemma course_errors_heads:
  assumes "course_errors U c = Inr errs" and "e \<in> set errs"
  shows "(\<exists>t. e = ustr ''Missing required field: '' @ t) \<or> (\<exists>t. e = ustr ''Course name too long: '' @ t)
       \<or> (\<exists>t. e = ustr ''Course name too short: '' @ t) \<or> e = ustr ''Not a course entry (system page)''
       \<or> (\<not> nfq_rule_ok c \<and> e = nfq_message U c)"
proof -
  from course_errors_Inr [OF assms(1)] obtain n sys where
    "errs = missing_required c
                  @ (if truthy (get c (ustr ''name'') (PStr [])) \<and> n > max_course_name_length
                     then [ustr ''Course name too long: '' @ str_of_nat n @ ustr '' chars''] else [])
                  @ (if \<not> truthy (get c (ustr ''name'') (PStr [])) \<or> n < min_course_name_length
                     then [ustr ''Course name too short: '' @ str_of_nat n @ ustr '' chars''] else [])
                  @ (if sys then [ustr ''Not a course entry (system page)''] else [])
                  @ (if \<not> nfq_rule_ok c then [nfq_message U c] else [])"
    by blast
  with assms(2) consider "e \<in> set (missing_required c)"
    | "e = ustr ''Course name too long: '' @ str_of_nat n @ ustr '' chars''"
    | "e = ustr ''Course name too short: '' @ str_of_nat n @ ustr '' chars''"
    | "e = ustr ''Not a course entry (system page)''"
    | "\<not> nfq_rule_ok c \<and> e = nfq_message U c"
    by (auto split: if_splits)
  then show ?thesis
  proof cases
    case 1
    then show ?thesis using missing_required_heads by blast
  qed blast+
qed

lemma nfq_message_not_other:
  "nfq_message U c \<noteq> ustr ''Missing required field: '' @ t"
  "nfq_message U c \<noteq> ustr ''Course name too long: '' @ t"
  "nfq_message U c \<noteq> ustr ''Course name too short: '' @ t"
  "nfq_message U c \<noteq> ustr ''Not a course entry (system page)''"
  by (simp_all add: nfq_message_def ustr_def ord_def)

lemma nfq_message_absent:
  assumes "course_errors U c = Inr errs" and "nfq_rule_ok c"
  shows "nfq_message U c \<notin> set errs"
  using course_errors_heads [OF assms(1), of "nfq_message U c"] assms(2) nfq_message_not_other [of U c]
  by auto

lemma no_level_course_errors:
  "course_errors ascii_lib no_level_course =
     Inr [ustr ''Missing required field: nfq_level'', ustr ''Invalid NFQ level: None'']"
  unfolding course_errors_def Let_def
  by (simp add: no_level_course_def get_def bind_err_def missing_required_def
        required_fields_def valid_nfq_levels_def max_course_name_length_def
  min_course_name_length_def invalid_names_def system_page_def
        lower_def sublist_code nfq_rule_ok_def nfq_message_def py_in_ints_def char_defs)

text \<open>
  Claim C6, as amended. \<^verbatim>\<open>clean_single_course\<close> cleans the level only
  \<^verbatim>\<open>if 'nfq_level' in cleaned\<close>: a raw record without that field is left without
  it, and the rule of the validator, which reads \<^verbatim>\<open>course.get('nfq_level')\<close>, fails on
  \<^verbatim>\<open>None\<close>. For every raw record that has the field and on which cleaning returns, the
  cleaned record carries an integer level of the valid set and passes the rule.
\<close>

theorem cleaned_level_passes_rule:
  assumes "clean_single_course U raw = Inr c" and "raw (ustr ''nfq_level'') \<noteq> None"
  shows "nfq_rule_ok c \<and> (\<exists>n. c (ustr ''nfq_level'') = Some (PInt n) \<and> n \<in> {5, 6, 7, 8, 9, 10}) \<and>
         (\<forall>errs. course_errors U c = Inr errs \<longrightarrow> nfq_message U c \<notin> set errs)"
proof -
  from clean_single_course_Inr [OF assms(1)] obtain c0 c1 c2 where
    c0: "c0 = (case clean_text_fields U raw (ustr ''cao_code'') of None \<Rightarrow> clean_text_fields U raw
                  | Some v \<Rightarrow> (clean_text_fields U raw)(ustr ''cao_code'' \<mapsto> PStr (standardize_cao_code U v)))"
    and c1: "clean_numeric (clean_nfq_level U) (ustr ''nfq_level'') c0 = Inr c1"
    and c2: "clean_numeric (clean_points U) (ustr ''points'') c1 = Inr c2"
    and c: "clean_numeric (clean_college_id U) (ustr ''college_id'') c2 = Inr c"
    by blast
  have "c0 (ustr ''nfq_level'') = raw (ustr ''nfq_level'')"
    by (simp add: c0 clean_text_fields_apply text_fields_def ustr_def ord_def split: option.splits)
  with assms(2) clean_numeric_Inr [OF c1] obtain v n where
    n: "clean_nfq_level U v = Inr n" and c1': "c1 = c0(ustr ''nfq_level'' \<mapsto> PInt n)"
    by auto
  have "c2 (ustr ''nfq_level'') = Some (PInt n)"
    using clean_numeric_Inr [OF c2] c1' by (auto simp: ustr_def ord_def)
  then have lvl: "c (ustr ''nfq_level'') = Some (PInt n)"
    using clean_numeric_Inr [OF c] by (auto simp: ustr_def ord_def)
  from clean_nfq_level_valid [OF n] have "n \<in> {5, 6, 7, 8, 9, 10}"
    by (simp add: valid_nfq_levels_def)
  with lvl have ok: "nfq_rule_ok c"
    by (auto simp: nfq_rule_ok_def get_def py_in_ints_def valid_nfq_levels_def)
  then have "\<forall>errs. course_errors U c = Inr errs \<longrightarrow> nfq_message U c \<notin> set errs"
    using nfq_message_absent by blast
  with ok lvl \<open>n \<in> {5, 6, 7, 8, 9, 10}\<close> show ?thesis by blast
qed

lemma clean_text_field_examples:
  "clean_text_field ascii_lib (PStr (ustr ''Computer Science'')) = ustr ''Computer Science''"
  "clean_text_field ascii_lib (PStr (ustr ''MSc in Accounting'')) = ustr ''MSc in Accounting''"
  unfolding clean_text_field_def Let_def
  by (simp_all add: char_defs strip_def replace_char_def allowed_def)

text \<open>In general: a raw record without a level is cleaned to a record that fails the rule.\<close>

lemma missing_level_fails_rule:
  assumes "clean_single_course U raw = Inr c" and "raw (ustr ''nfq_level'') = None"
  shows "\<not> nfq_rule_ok c"
proof -
  from clean_single_course_Inr [OF assms(1)] obtain c0 c1 c2 where
    c0: "c0 = (case clean_text_fields U raw (ustr ''cao_code'') of None \<Rightarrow> clean_text_fields U raw
                  | Some v \<Rightarrow> (clean_text_fields U raw)(ustr ''cao_code'' \<mapsto> PStr (standardize_cao_code U v)))"
    and c1: "clean_numeric (clean_nfq_level U) (ustr ''nfq_level'') c0 = Inr c1"
    and c2: "clean_numeric (clean_points U) (ustr ''points'') c1 = Inr c2"
    and c: "clean_numeric (clean_college_id U) (ustr ''college_id'') c2 = Inr c"
    by blast
  have "c0 (ustr ''nfq_level'') = None"
    using assms(2) by (simp add: c0 clean_text_fields_apply text_fields_def split: option.splits)
  then have "c1 (ustr ''nfq_level'') = None"
    using clean_numeric_Inr [OF c1] by auto
  then have "c2 (ustr ''nfq_level'') = None"
    using clean_numeric_Inr [OF c2] by auto
  then have "c (ustr ''nfq_level'') = None"
    using clean_numeric_Inr [OF c] by auto
  then show ?thesis
    by (simp add: nfq_rule_ok_def get_def py_in_ints_def valid_nfq_levels_def)
qed

text \<open>
  A raw record with a name and no level: cleaning returns it unchanged, the rule on the
  level fails on it, and the validator records that.
\<close>

lemma no_level_course_cleaned:
  "clean_single_course ascii_lib no_level_course = Inr no_level_course \<and> \<not> nfq_rule_ok no_level_course"
  unfolding clean_single_course_def clean_text_fields_def Let_def
  by (simp add: no_level_course_def text_fields_def clean_numeric_def bind_err_def clean_text_field_examples
        nfq_rule_ok_def get_def py_in_ints_def valid_nfq_levels_def)

theorem uncleaned_level_fails_rule:
  "clean_single_course ascii_lib no_level_course = Inr no_level_course \<and>
   \<not> nfq_rule_ok no_level_course \<and>
   course_errors ascii_lib no_level_course =
     Inr [ustr ''Missing required field: nfq_level'', ustr ''Invalid NFQ level: None'']"
  using no_level_course_cleaned no_level_course_errors by simp

lemma clean_nfq_level_nine: "clean_nfq_level ascii_lib (PStr (ustr ''9'')) = Inr 9"
  by (simp add: clean_nfq_level_def int_of_str_def unsigned_of_str_def int_space_def valid_nfq_levels_def char_defs)

lemma level_nine_cleaned:
  "clean_single_course ascii_lib level_nine_course =
     Inr [ustr ''name'' \<mapsto> PStr (ustr ''MSc in Accounting''), ustr ''nfq_level'' \<mapsto> PInt 9]"
  unfolding clean_single_course_def clean_text_fields_def Let_def
  by (simp add: level_nine_course_def text_fields_def clean_numeric_def bind_err_def clean_text_field_examples
        clean_nfq_level_nine)

theorem cleaned_level_passes_rule_witness:
  "clean_single_course ascii_lib level_nine_course =
     Inr [ustr ''name'' \<mapsto> PStr (ustr ''MSc in Accounting''), ustr ''nfq_level'' \<mapsto> PInt 9] \<and>
   level_nine_course (ustr ''nfq_level'') = Some (PStr (ustr ''9'')) \<and>
   nfq_rule_ok [ustr ''name'' \<mapsto> PStr (ustr ''MSc in Accounting''), ustr ''nfq_level'' \<mapsto> PInt 9]"
proof -
  have present: "level_nine_course (ustr ''nfq_level'') \<noteq> None"
    by (simp add: level_nine_course_def)
  show ?thesis
    using cleaned_level_passes_rule [OF level_nine_cleaned present] level_nine_cleaned
    by (simp add: level_nine_course_def)
qed

section \<open>System pages are rejected\<close>

lemma system_page_nonempty: "system_page U name \<Longrightarrow> name \<noteq> []"
  by (auto simp: system_page_def invalid_names_def lower_def)

lemma course_errors_system_page:
  assumes "course (ustr ''name'') = Some (PStr name)" and "system_page U name"
    and "\<not> truthy (get course (ustr ''description'') (PStr []))
         \<or> (\<exists>n. py_len (get course (ustr ''description'') (PStr [])) = Inr n)"
  shows "\<exists>errs. course_errors U course = Inr errs \<and> ustr ''Not a course entry (system page)'' \<in> set errs"
proof -
  have name: "get course (ustr ''name'') (PStr []) = PStr name" using assms(1) by (simp add: get_def)
  have ne: "name \<noteq> []" using assms(2) by (rule system_page_nonempty)
  from assms(3) obtain n where
    "(if truthy (get course (ustr ''description'') (PStr []))
      then py_len (get course (ustr ''description'') (PStr [])) else Inr 0) = Inr n"
    by (cases "truthy (get course (ustr ''description'') (PStr []))") auto
  then obtain errs where "course_errors U course = Inr errs"
    and "ustr ''Not a course entry (system page)'' \<in> set errs"
    unfolding course_errors_def Let_def bind_err_def using name ne assms(2)
    by (simp split del: if_split)
  then show ?thesis by blast
qed

text \<open>After cleaning, a description is a string.\<close>

lemma cleaned_description:
  assumes "clean_single_course U raw = Inr c"
  shows "\<not> truthy (get c (ustr ''description'') (PStr []))
         \<or> (\<exists>n. py_len (get c (ustr ''description'') (PStr [])) = Inr n)"
proof -
  from clean_single_course_Inr [OF assms] obtain c0 c1 c2 where
    c0: "c0 = (case clean_text_fields U raw (ustr ''cao_code'') of None \<Rightarrow> clean_text_fields U raw
                  | Some v \<Rightarrow> (clean_text_fields U raw)(ustr ''cao_code'' \<mapsto> PStr (standardize_cao_code U v)))"
    and c1: "clean_numeric (clean_nfq_level U) (ustr ''nfq_level'') c0 = Inr c1"
    and c2: "clean_numeric (clean_points U) (ustr ''points'') c1 = Inr c2"
    and c: "clean_numeric (clean_college_id U) (ustr ''college_id'') c2 = Inr c"
    by blast
  have "c0 (ustr ''description'') = map_option (\<lambda>v. PStr (clean_text_field U v)) (raw (ustr ''description''))"
    by (simp add: c0 clean_text_fields_apply text_fields_def split: option.splits)
  moreover have "c1 (ustr ''description'') = c0 (ustr ''description'')"
    using clean_numeric_Inr [OF c1] by auto
  moreover have "c2 (ustr ''description'') = c1 (ustr ''description'')"
    using clean_numeric_Inr [OF c2] by auto
  moreover have "c (ustr ''description'') = c2 (ustr ''description'')"
    using clean_numeric_Inr [OF c] by auto
  ultimately have "c (ustr ''description'') = map_option (\<lambda>v. PStr (clean_text_field U v)) (raw (ustr ''description''))"
    by simp
  then show ?thesis by (cases "raw (ustr ''description'')") (auto simp: get_def)
qed

lemma missing_required_Nil:
  assumes "missing_required c = []"
  shows "\<exists>v. c (ustr ''name'') = Some v \<and> truthy v"
  using assms by (auto simp: missing_required_def required_fields_def split: option.splits if_splits)

lemma course_errors_Nil:
  assumes "course_errors U c = Inr []"
  shows "\<exists>name. c (ustr ''name'') = Some (PStr name) \<and> \<not> system_page U name"
proof -
  from course_errors_Inr [OF assms] obtain n sys where
    e: "[] = missing_required c
                  @ (if truthy (get c (ustr ''name'') (PStr [])) \<and> n > max_course_name_length
                     then [ustr ''Course name too long: '' @ str_of_nat n @ ustr '' chars''] else [])
                  @ (if \<not> truthy (get c (ustr ''name'') (PStr [])) \<or> n < min_course_name_length
                     then [ustr ''Course name too short: '' @ str_of_nat n @ ustr '' chars''] else [])
                  @ (if sys then [ustr ''Not a course entry (system page)''] else [])
                  @ (if \<not> nfq_rule_ok c then [nfq_message U c] else [])"
    and t: "if truthy (get c (ustr ''name'') (PStr []))
            then \<exists>s. get c (ustr ''name'') (PStr []) = PStr s \<and> n = length s \<and> sys = system_page U s
            else n = 0 \<and> \<not> sys"
    by blast
  from e have m: "missing_required c = []" and s: "\<not> sys" by (auto split: if_splits)
  from missing_required_Nil [OF m] obtain v where v: "c (ustr ''name'') = Some v" "truthy v" by blast
  then have "get c (ustr ''name'') (PStr []) = v" by (simp add: get_def)
  with t v s show ?thesis by auto
qed

lemma map_err_Inr:
  assumes "map_err f xs = Inr ys" and "y \<in> set ys"
  shows "\<exists>x\<in>set xs. f x = Inr y"
  using assms
  by (induction xs arbitrary: ys) (auto simp: bind_err_def split: sum.splits)

lemma validate_all_valid:
  assumes "validate_all U st cs = Inr (valid, st')"
  shows "\<forall>c\<in>set valid. c \<in> set cs \<and> course_errors U c = Inr []"
  using assms
proof (induction cs arbitrary: st valid)
  case Nil
  then show ?case by simp
next
  case (Cons c cs)
  from validate_all_Cons [OF Cons.prems]
  obtain ok st1 rest where c: "validate_course U st c = Inr (ok, st1)"
    and r: "validate_all U st1 cs = Inr (rest, st')" and v: "valid = (if ok then c # rest else rest)"
    by auto
  from Cons.IH [OF r] have "\<forall>x\<in>set rest. x \<in> set cs \<and> course_errors U x = Inr []" .
  with c v validate_course_True [of U st c st1] show ?case by (cases ok) auto
qed

lemma remove_duplicates_subset:
  assumes "remove_duplicates U st cs = Inr (out, st')"
  shows "set out \<subseteq> set cs"
proof -
  from assms obtain n where "dedup_loop U {} [] 0 cs = Inr (out, n)"
    by (auto simp: remove_duplicates_def bind_err_def split: sum.splits)
  from dedup_loop_result [OF this] have "subseq out cs" by auto
  then show ?thesis by (auto elim: list_emb_set)
qed

lemma enhance_course_data_name:
  assumes "enhance_course_data U c = Inr e"
  shows "e (ustr ''name'') = c (ustr ''name'')"
  using assms unfolding enhance_course_data_def Let_def bind_err_def
  by (auto split: sum.splits if_splits)

lemma clean_course_data_names:
  assumes "clean_course_data U st raws = Inr (out, st')" and "r \<in> set out"
  shows "\<exists>name. r (ustr ''name'') = Some (PStr name) \<and> \<not> system_page U name"
proof -
  from assms(1) obtain cleaned valid st1 unique st2 where
    "validate_all U (st\<lparr>total_records := length raws\<rparr>) cleaned = Inr (valid, st1)"
    and u: "remove_duplicates U st1 valid = Inr (unique, st2)"
    and e: "map_err (enhance_course_data U) unique = Inr out"
    unfolding clean_course_data_def Let_def bind_err_def
    by (auto split: sum.splits prod.splits)
  from validate_all_valid [OF this(1)] have v: "\<forall>c\<in>set valid. course_errors U c = Inr []" by simp
  from map_err_Inr [OF e assms(2)] obtain c where "c \<in> set unique" "enhance_course_data U c = Inr r"
    by blast
  with remove_duplicates_subset [OF u] v have "course_errors U c = Inr []" "r (ustr ''name'') = c (ustr ''name'')"
    by (auto dest: enhance_course_data_name)
  with course_errors_Nil [of U c] show ?thesis by auto
qed

text \<open>
  Claim C7. Let the name of a record be a string whose lowered form contains one of the
  seven denylisted substrings, as \<^verbatim>\<open>"Contact Us"\<close> does, and let its description be
  absent, false or a value that has a length, as it is in every cleaned record. Then
  \<^verbatim>\<open>validate_course\<close> returns false, whatever the other fields are, and stores reasons
  that include \<^verbatim>\<open>"Not a course entry (system page)"\<close> under the first 50 characters of
  the name; and no run of \<^verbatim>\<open>clean_course_data\<close> has this record in its output.
\<close>

theorem system_page_rejected:
  assumes "course (ustr ''name'') = Some (PStr name)" and "system_page U name"
    and "\<not> truthy (get course (ustr ''description'') (PStr []))
         \<or> (\<exists>n. py_len (get course (ustr ''description'') (PStr [])) = Inr n)"
    and "clean_course_data U st0 raws = Inr (out, st1)"
  shows "(\<exists>errs. validate_course U st course =
                   Inr (False, st\<lparr>validation_errors := dict_set (validation_errors st) (take 50 name) errs\<rparr>) \<and>
                 ustr ''Not a course entry (system page)'' \<in> set errs) \<and>
         course \<notin> set out"
proof -
  from course_errors_system_page [OF assms(1-3)] obtain errs where
    errs: "course_errors U course = Inr errs" "ustr ''Not a course entry (system page)'' \<in> set errs"
    by blast
  then have "errs \<noteq> []" by auto
  moreover have "course_name course = Inr (take 50 name)"
    using assms(1) by (simp add: course_name_def get_def)
  ultimately have "validate_course U st course =
      Inr (False, st\<lparr>validation_errors := dict_set (validation_errors st) (take 50 name) errs\<rparr>)"
    using errs(1) by (simp add: validate_course_def bind_err_def)
  moreover have "course \<notin> set out"
    using clean_course_data_names [OF assms(4), of course] assms(1,2) by auto
  ultimately show ?thesis using errs(2) by blast
qed

lemma contact_us_clean_text:
  "clean_text_field ascii_lib (PStr (ustr ''Contact Us'')) = ustr ''Contact Us''"
  "clean_text_field ascii_lib (PStr (ustr ''Bachelor of Arts'')) = ustr ''Bachelor of Arts''"
  unfolding clean_text_field_def Let_def
  by (simp_all add: char_defs strip_def replace_char_def allowed_def)

lemma contact_us_numbers:
  "clean_nfq_level ascii_lib (PInt 8) = Inr 8" "clean_points ascii_lib (PInt 450) = Inr 450"
  by (simp_all add: clean_nfq_level_def clean_points_def valid_nfq_levels_def)

lemma contact_us_cleaned: "clean_single_course ascii_lib contact_us_course = Inr contact_us_course"
  unfolding clean_single_course_def clean_text_fields_def Let_def
  by (simp add: contact_us_course_def text_fields_def clean_numeric_def bind_err_def
        contact_us_clean_text contact_us_numbers fun_eq_iff)

lemma contact_us_system_page: "system_page ascii_lib (ustr ''Contact Us'')"
  by (simp add: system_page_def invalid_names_def lower_def sublist_code char_defs)

lemma contact_us_errors:
  "course_errors ascii_lib contact_us_course = Inr [ustr ''Not a course entry (system page)'']"
  unfolding course_errors_def Let_def
  by (simp add: contact_us_course_def get_def bind_err_def missing_required_def rule_defs
        contact_us_system_page nfq_rule_ok_def py_in_ints_def)

lemma contact_us_name: "course_name contact_us_course = Inr (ustr ''Contact Us'')"
  by (simp add: course_name_def get_def contact_us_course_def ustr_def)

lemma contact_us_validate:
  "validate_course ascii_lib st contact_us_course =
     Inr (False, st\<lparr>validation_errors :=
            dict_set (validation_errors st) (ustr ''Contact Us'') [ustr ''Not a course entry (system page)'']\<rparr>)"
  by (simp add: validate_course_def bind_err_def contact_us_errors contact_us_name)

lemma contact_us_batch:
  "clean_course_data ascii_lib init_stats [contact_us_course] =
     Inr ([], \<lparr>total_records = 1, valid_records = 0, duplicates_removed = 0,
               validation_errors = [(ustr ''Contact Us'', [ustr ''Not a course entry (system page)''])]\<rparr>)"
  unfolding clean_course_data_def Let_def
  by (simp add: bind_err_def contact_us_cleaned contact_us_validate remove_duplicates_def
        log_validation_stats_def init_stats_def)

theorem system_page_rejected_witness:
  "contact_us_course (ustr ''name'') = Some (PStr (ustr ''Contact Us'')) \<and>
   system_page ascii_lib (ustr ''Contact Us'') \<and>
   py_len (get contact_us_course (ustr ''description'') (PStr [])) = Inr 16 \<and>
   clean_course_data ascii_lib init_stats [contact_us_course] =
     Inr ([], \<lparr>total_records = 1, valid_records = 0, duplicates_removed = 0,
               validation_errors = [(ustr ''Contact Us'', [ustr ''Not a course entry (system page)''])]\<rparr>) \<and>
   validate_course ascii_lib init_stats contact_us_course =
     Inr (False, init_stats\<lparr>validation_errors :=
            [(ustr ''Contact Us'', [ustr ''Not a course entry (system page)''])]\<rparr>) \<and>
   contact_us_course \<notin> set []"
proof -
  have n: "contact_us_course (ustr ''name'') = Some (PStr (ustr ''Contact Us''))"
    by (simp add: contact_us_course_def)
  have d: "py_len (get contact_us_course (ustr ''description'') (PStr [])) = Inr 16"
    by (simp add: contact_us_course_def get_def ustr_def)
  then have d': "\<not> truthy (get contact_us_course (ustr ''description'') (PStr []))
         \<or> (\<exists>n. py_len (get contact_us_course (ustr ''description'') (PStr [])) = Inr n)"
    by blast
  show ?thesis
    using system_page_rejected [OF n contact_us_system_page d' contact_us_batch, of init_stats]
      n d contact_us_system_page contact_us_batch
    by (simp add: contact_us_validate init_stats_def)
qed

section \<open>Tags\<close>

lemma tag_order:
  "ustr ''Arts'' < ustr ''Business''" "ustr ''Business'' < ustr ''Education''"
  "ustr ''Education'' < ustr ''Health''" "ustr ''Health'' < ustr ''STEM''"
  by (simp_all add: ustr_def ord_def)

lemma tag_order_le:
  "ustr ''Arts'' \<le> ustr ''Business''" "ustr ''Arts'' \<le> ustr ''Education''" "ustr ''Arts'' \<le> ustr ''Health''"
  "ustr ''Arts'' \<le> ustr ''STEM''" "ustr ''Business'' \<le> ustr ''Education''" "ustr ''Business'' \<le> ustr ''Health''"
  "ustr ''Business'' \<le> ustr ''STEM''" "ustr ''Education'' \<le> ustr ''Health''" "ustr ''Education'' \<le> ustr ''STEM''"
  "ustr ''Health'' \<le> ustr ''STEM''"
  by (simp_all add: ustr_def ord_def)

lemma tag_order_not_le:
  "\<not> ustr ''Business'' \<le> ustr ''Arts''" "\<not> ustr ''Education'' \<le> ustr ''Arts''" "\<not> ustr ''Health'' \<le> ustr ''Arts''"
  "\<not> ustr ''STEM'' \<le> ustr ''Arts''" "\<not> ustr ''Education'' \<le> ustr ''Business''" "\<not> ustr ''Health'' \<le> ustr ''Business''"
  "\<not> ustr ''STEM'' \<le> ustr ''Business''" "\<not> ustr ''Health'' \<le> ustr ''Education''" "\<not> ustr ''STEM'' \<le> ustr ''Education''"
  "\<not> ustr ''STEM'' \<le> ustr ''Health''"
  by (simp_all add: ustr_def ord_def)

lemma tags_of_content_matching:
  "tags_of_content content =
     (if matching_categories content = [] then ustr ''General''
      else join (ustr '', '') (matching_categories content))"
  unfolding tags_of_content_def Let_def matching_categories_def categories_def
  by (simp add: tag_order_le tag_order_not_le)

lemma matching_categories_sorted:
  "sorted (matching_categories content) \<and> distinct (matching_categories content)"
proof -
  have "sorted (map fst categories)" "distinct (map fst categories)"
    by (simp_all add: categories_def tag_order_le)
  then show ?thesis
    unfolding matching_categories_def
    by (auto simp: sorted_filter distinct_map_filter)
qed


lemma matching_categories_Nil:
  "matching_categories content = [] \<longleftrightarrow> (\<forall>keyword\<in>set all_keywords. \<not> sublist keyword content)"
  unfolding matching_categories_def categories_def all_keywords_def any_in_def
  by (auto simp: list_ex_iff)

lemma matching_categories_set:
  "set (matching_categories content) =
     {name. \<exists>keywords. (name, keywords) \<in> set categories \<and> (\<exists>keyword\<in>set keywords. sublist keyword content)}"
  unfolding matching_categories_def any_in_def by (force simp: list_ex_iff image_iff)

lemma get_upd_other: "k \<noteq> k' \<Longrightarrow> get (course(k \<mapsto> v)) k' d = get course k' d"
  by (simp add: get_def)

lemma tag_content_upd:
  assumes "k \<noteq> ustr ''name''" and "k \<noteq> ustr ''description''"
  shows "tag_content U (course(k \<mapsto> v)) = tag_content U course"
  unfolding tag_content_def get_upd_other [OF assms(1)] get_upd_other [OF assms(2)] by (rule refl)

lemma improve_tags_upd:
  "k \<noteq> ustr ''name'' \<Longrightarrow> k \<noteq> ustr ''description'' \<Longrightarrow> improve_tags U (course(k \<mapsto> v)) = improve_tags U course"
  by (simp add: improve_tags_def tag_content_upd)

lemma enhance_course_data_tags:
  assumes "enhance_course_data U course = Inr enhanced"
  shows "\<exists>tags. improve_tags U course = Inr tags \<and> enhanced (ustr ''tags'') = Some (PStr tags)"
proof -
  define e0 where "e0 = (if \<not> truthy (get course (ustr ''cao_code'') PNone)
               then bind_err (extract_cao_code_from_name U (get course (ustr ''name'') (PStr [])))
                      (\<lambda>code. Inr (course(ustr ''cao_code'' \<mapsto> PStr code)))
               else Inr course)"
  from assms obtain c0 where c0: "e0 = Inr c0"
    unfolding enhance_course_data_def e0_def [symmetric] by (cases e0) (auto simp: bind_err_def)
  have same: "improve_tags U c0 = improve_tags U course"
    using c0 unfolding e0_def bind_err_def
    by (auto simp: improve_tags_upd split: if_splits sum.splits)
  from assms c0 obtain tags where t: "improve_tags U c0 = Inr tags"
    unfolding enhance_course_data_def e0_def [symmetric] by (cases "improve_tags U c0") (auto simp: bind_err_def)
  from assms c0 t have "enhanced (ustr ''tags'') = Some (PStr tags)"
    unfolding enhance_course_data_def e0_def [symmetric] Let_def
    by (auto simp: bind_err_def split: sum.splits)
  with same t show ?thesis by auto
qed

lemma extract_cao_code_from_name_str: "\<exists>code. extract_cao_code_from_name U (PStr s) = Inr code"
  by (simp add: extract_cao_code_from_name_def split: option.splits)

lemma generate_keywords_str:
  assumes "get c (ustr ''name'') (PStr []) = PStr n" "get c (ustr ''description'') (PStr []) = PStr d"
    "get c (ustr ''tags'') (PStr []) = PStr t"
  shows "\<exists>k. generate_keywords U c = Inr k"
  using assms by (simp add: generate_keywords_def field_words_def tag_words_def bind_err_def Let_def)

lemma enhance_course_data_returns:
  assumes "get course (ustr ''name'') (PStr []) = PStr name"
    and "get course (ustr ''description'') (PStr []) = PStr description"
  shows "(\<exists>enhanced. enhance_course_data U course = Inr enhanced) \<longleftrightarrow>
         (\<exists>d. standardize_duration U (get course (ustr ''duration'') (PStr [])) = Inr d)"
proof -
  obtain code where code: "extract_cao_code_from_name U (get course (ustr ''name'') (PStr [])) = Inr code"
    using assms(1) extract_cao_code_from_name_str by auto
  define c0 where "c0 = (if \<not> truthy (get course (ustr ''cao_code'') PNone)
               then course(ustr ''cao_code'' \<mapsto> PStr code) else course)"
  have g0: "get c0 (ustr ''name'') (PStr []) = PStr name" "get c0 (ustr ''description'') (PStr []) = PStr description"
    "get c0 (ustr ''duration'') (PStr []) = get course (ustr ''duration'') (PStr [])"
    using assms by (auto simp: c0_def get_def)
  then obtain tags where tags: "improve_tags U c0 = Inr tags"
    by (simp add: improve_tags_def tag_content_def bind_err_def)
  define c1 where "c1 = c0(ustr ''tags'' \<mapsto> PStr tags)"
  have g1: "get c1 (ustr ''duration'') (PStr []) = get course (ustr ''duration'') (PStr [])"
    using g0 by (simp add: c1_def get_def)
  have kw: "\<exists>k. generate_keywords U (c1(ustr ''duration'' \<mapsto> PStr d)) = Inr k" for d
    using g0 by (intro generate_keywords_str [of _ name description tags]) (auto simp: c1_def get_def)
  have unfold: "enhance_course_data U course =
      bind_err (standardize_duration U (get course (ustr ''duration'') (PStr []))) (\<lambda>duration.
        bind_err (generate_keywords U (c1(ustr ''duration'' \<mapsto> PStr duration))) (\<lambda>keywords.
          Inr (c1(ustr ''duration'' \<mapsto> PStr duration, ustr ''keywords'' \<mapsto> PStr keywords))))"
    unfolding enhance_course_data_def Let_def
    using code tags g1 by (auto simp: bind_err_def c0_def c1_def)
  show ?thesis
  proof
    assume "\<exists>enhanced. enhance_course_data U course = Inr enhanced"
    then show "\<exists>d. standardize_duration U (get course (ustr ''duration'') (PStr [])) = Inr d"
      unfolding unfold bind_err_def by (auto split: sum.splits)
  next
    assume "\<exists>d. standardize_duration U (get course (ustr ''duration'') (PStr [])) = Inr d"
    then obtain d where d: "standardize_duration U (get course (ustr ''duration'') (PStr [])) = Inr d" by blast
    from kw [of d] obtain k where "generate_keywords U (c1(ustr ''duration'' \<mapsto> PStr d)) = Inr k" by blast
    with d show "\<exists>enhanced. enhance_course_data U course = Inr enhanced"
      unfolding unfold bind_err_def by simp
  qed
qed

text \<open>
  Claim C8. For a record whose name and description are strings (or absent), let the
  content be the lowered name, a space and the lowered description, and let the tags be
  \<^verbatim>\<open>"General"\<close> when no keyword of the five lists occurs in the content, and otherwise
  the names of the categories that have a keyword in the content, each once, in sorted
  order, joined by \<^verbatim>\<open>", "\<close>. Then \<^verbatim>\<open>improve_tags\<close> returns these tags, every record
  that \<^verbatim>\<open>enhance_course_data\<close> returns for this record carries them in its field
  \<^verbatim>\<open>tags\<close>, and \<^verbatim>\<open>enhance_course_data\<close> does return one whenever its step on the
  duration returns.
\<close>

theorem enhance_course_data_assigns_tags:
  assumes "get course (ustr ''name'') (PStr []) = PStr name"
    and "get course (ustr ''description'') (PStr []) = PStr description"
    and "content = lower U name @ ustr '' '' @ lower U description"
    and "tags = (if \<forall>keyword\<in>set all_keywords. \<not> sublist keyword content then ustr ''General''
                 else join (ustr '', '') (matching_categories content))"
  shows "improve_tags U course = Inr tags \<and>
         (\<forall>enhanced. enhance_course_data U course = Inr enhanced \<longrightarrow>
                     enhanced (ustr ''tags'') = Some (PStr tags)) \<and>
         ((\<exists>enhanced. enhance_course_data U course = Inr enhanced) \<longleftrightarrow>
          (\<exists>d. standardize_duration U (get course (ustr ''duration'') (PStr [])) = Inr d)) \<and>
         sorted (matching_categories content) \<and> distinct (matching_categories content) \<and>
         set (matching_categories content) =
           {name. \<exists>keywords. (name, keywords) \<in> set categories \<and>
                              (\<exists>keyword\<in>set keywords. sublist keyword content)}"
proof -
  have "tag_content U course = Inr content"
    using assms(1-3) by (simp add: tag_content_def)
  then have "improve_tags U course = Inr (tags_of_content content)"
    by (simp add: improve_tags_def bind_err_def)
  then have t: "improve_tags U course = Inr tags"
    by (simp add: assms(4) tags_of_content_matching matching_categories_Nil)
  have "enhanced (ustr ''tags'') = Some (PStr tags)" if "enhance_course_data U course = Inr enhanced"
    for enhanced
    using enhance_course_data_tags [OF that] t by auto
  then have a: "\<forall>enhanced. enhance_course_data U course = Inr enhanced \<longrightarrow>
                     enhanced (ustr ''tags'') = Some (PStr tags)"
    by simp
  note r = enhance_course_data_returns [OF assms(1,2), of U]
  have s: "sorted (matching_categories content)" and d: "distinct (matching_categories content)"
    using matching_categories_sorted [of content] by simp_all
  note m = matching_categories_set [of content]
  from t a r s d m show ?thesis by (intro conjI)
qed

lemma computing_business_content:
  "lower ascii_lib (ustr ''Computer Science with Business'') @ ustr '' '' @ lower ascii_lib (ustr ''A four year degree'')
     = ustr ''computer science with business a four year degree''"
  by (simp add: lower_def char_defs)

lemma computing_business_matching:
  "matching_categories (ustr ''computer science with business a four year degree'') = [ustr ''Business'', ustr ''STEM'']"
  unfolding matching_categories_def categories_def any_in_def
  by (simp add: stem_keywords_def business_keywords_def arts_keywords_def health_keywords_def
        education_keywords_def sublist_code ustr_def ord_def)

lemma computing_business_code:
  "extract_cao_code_from_name ascii_lib (PStr (ustr ''Computer Science with Business'')) = Inr []"
  unfolding extract_cao_code_from_name_def
  by (simp add: upper_def name_code_at_def name_code_try_def cao_try_def boundary_def char_defs)

lemma computing_business_keywords:
  "generate_keywords ascii_lib
     (computing_business_course(ustr ''cao_code'' \<mapsto> PStr [], ustr ''tags'' \<mapsto> PStr (ustr ''Business, STEM''),
        ustr ''duration'' \<mapsto> PStr []))
   = Inr (ustr '' stem, business, computer, degree, four, science, year'')"
  unfolding generate_keywords_def Let_def
  by (simp add: computing_business_course_def get_def field_words_def tag_words_def bind_err_def
        lower_def stop_words_def char_defs)

lemma computing_business_tags:
  "improve_tags ascii_lib computing_business_course = Inr (ustr ''Business, STEM'')"
proof -
  have "tag_content ascii_lib computing_business_course =
          Inr (ustr ''computer science with business a four year degree'')"
    using computing_business_content
    by (simp add: tag_content_def get_def computing_business_course_def)
  moreover have "ustr ''Business'' @ ustr '', '' @ ustr ''STEM'' = ustr ''Business, STEM''"
    by (simp add: ustr_def)
  ultimately show ?thesis
    by (simp add: improve_tags_def bind_err_def tags_of_content_matching computing_business_matching)
qed

lemma computing_business_gets:
  "get computing_business_course (ustr ''name'') (PStr []) = PStr (ustr ''Computer Science with Business'')"
  "get computing_business_course (ustr ''description'') (PStr []) = PStr (ustr ''A four year degree'')"
  "get computing_business_course (ustr ''cao_code'') PNone = PNone"
  "get (computing_business_course(ustr ''cao_code'' \<mapsto> PStr [], ustr ''tags'' \<mapsto> PStr (ustr ''Business, STEM'')))
     (ustr ''duration'') (PStr []) = PStr []"
  by (simp_all add: computing_business_course_def get_def)

lemma computing_business_enhanced:
  "enhance_course_data ascii_lib computing_business_course =
     Inr (computing_business_course
           (ustr ''cao_code'' \<mapsto> PStr [], ustr ''tags'' \<mapsto> PStr (ustr ''Business, STEM''),
            ustr ''duration'' \<mapsto> PStr [],
            ustr ''keywords'' \<mapsto> PStr (ustr '' stem, business, computer, degree, four, science, year'')))"
  unfolding enhance_course_data_def Let_def
  by (simp add: bind_err_def computing_business_gets computing_business_code improve_tags_upd
        computing_business_tags standardize_duration_def computing_business_keywords)

theorem enhance_course_data_assigns_tags_witness:
  "get computing_business_course (ustr ''name'') (PStr []) = PStr (ustr ''Computer Science with Business'') \<and>
   get computing_business_course (ustr ''description'') (PStr []) = PStr (ustr ''A four year degree'') \<and>
   enhance_course_data ascii_lib computing_business_course =
     Inr (computing_business_course
           (ustr ''cao_code'' \<mapsto> PStr [], ustr ''tags'' \<mapsto> PStr (ustr ''Business, STEM''),
            ustr ''duration'' \<mapsto> PStr [],
            ustr ''keywords'' \<mapsto> PStr (ustr '' stem, business, computer, degree, four, science, year''))) \<and>
   (computing_business_course
           (ustr ''cao_code'' \<mapsto> PStr [], ustr ''tags'' \<mapsto> PStr (ustr ''Business, STEM''),
            ustr ''duration'' \<mapsto> PStr [],
            ustr ''keywords'' \<mapsto> PStr (ustr '' stem, business, computer, degree, four, science, year'')))
     (ustr ''tags'') = Some (PStr (ustr ''Business, STEM'')) \<and>
   improve_tags ascii_lib computing_business_course = Inr (ustr ''Business, STEM'')"
proof -
  have j: "ustr ''Business'' @ ustr '', '' @ ustr ''STEM'' = ustr ''Business, STEM''"
    by (simp add: ustr_def)
  have m: "matching_categories (ustr ''computer science with business a four year degree'') \<noteq> []"
    by (simp add: computing_business_matching)
  have tags: "ustr ''Business, STEM'' =
      (if \<forall>keyword\<in>set all_keywords. \<not> sublist keyword (ustr ''computer science with business a four year degree'')
       then ustr ''General''
       else join (ustr '', '') (matching_categories (ustr ''computer science with business a four year degree'')))"
    using m by (simp add: matching_categories_Nil [symmetric] computing_business_matching j)
  show ?thesis
    using enhance_course_data_assigns_tags [OF computing_business_gets(1,2)
        computing_business_content [symmetric] tags]
      computing_business_gets(1,2) computing_business_enhanced
    by simp
qed

section \<open>The canonical form of a CAO code\<close>

lemma first_some_None: "first_some f xs = None \<longleftrightarrow> (\<forall>x\<in>set xs. f x = None)"
  by (induction xs) (auto split: option.splits)

lemma first_some_Some:
  "first_some f xs = Some y \<Longrightarrow> \<exists>ys x zs. xs = ys @ x # zs \<and> f x = Some y \<and> (\<forall>w\<in>set ys. f w = None)"
proof (induction xs)
  case Nil
  then show ?case by simp
next
  case (Cons a xs)
  show ?case
  proof (cases "f a")
    case None
    with Cons obtain ys x zs where "xs = ys @ x # zs" "f x = Some y" "\<forall>w\<in>set ys. f w = None"
      by auto
    with None have "a # xs = (a # ys) @ x # zs \<and> f x = Some y \<and> (\<forall>w\<in>set (a # ys). f w = None)"
      by simp
    then show ?thesis by blast
  next
    case (Some b)
    with Cons.prems have "a # xs = [] @ a # xs \<and> f a = Some y \<and> (\<forall>w\<in>set []. f w = None)"
      by simp
    then show ?thesis by blast
  qed
qed

lemma cao_try_Some:
  assumes "cao_try U s (n, m) = Some (g1, g2)"
  shows "s = g1 @ g2 @ drop (n + m) s \<and> length g1 = n \<and> length g2 = m \<and>
         list_all is_AZ g1 \<and> list_all (is_digit U) g2"
proof -
  from assms have g: "g1 = take n s" "g2 = take m (drop n s)" "length g1 = n" "length g2 = m"
    "list_all is_AZ g1" "list_all (is_digit U) g2"
    by (auto simp: cao_try_def Let_def split: if_splits)
  have "take m (drop n s) @ drop m (drop n s) = drop n s" by (rule append_take_drop_id)
  then have "take n s @ take m (drop n s) @ drop m (drop n s) = s" by simp
  then have "s = g1 @ g2 @ drop (n + m) s" using g(1,2) by (simp add: add.commute)
  with g show ?thesis by simp
qed

lemma cao_try_complete:
  assumes "list_all is_AZ l" and "list_all (is_digit U) d"
  shows "cao_try U (l @ d @ post) (length l, length d) = Some (l, d)"
  using assms by (simp add: cao_try_def)

lemma cao_match_at_Some:
  assumes "cao_match_at U s = Some (g1, g2)"
  shows "\<exists>post. s = g1 @ g2 @ post \<and> cao_code_shape U g1 g2 \<and>
           (length g2 = 3 \<longrightarrow> cao_try U s (length g1, 4) = None)"
proof -
  from first_some_Some [OF assms [unfolded cao_match_at_def]]
  obtain ys x zs where split: "[(4, 4), (4, 3), (3, 4), (3, 3), (2, 4), (2::nat, 3::nat)] = ys @ x # zs"
    and x: "cao_try U s x = Some (g1, g2)" and before: "\<forall>w\<in>set ys. cao_try U s w = None"
    by blast
  obtain n m where nm: "x = (n, m)" by (cases x)
  from split nm have mem: "(n, m) \<in> set [(4, 4), (4, 3), (3, 4), (3, 3), (2, 4), (2::nat, 3::nat)]"
    by (metis in_set_conv_decomp)
  from cao_try_Some [OF x [unfolded nm]] have s: "s = g1 @ g2 @ drop (n + m) s" and len: "length g1 = n" "length g2 = m"
    and cls: "list_all is_AZ g1" "list_all (is_digit U) g2" by auto
  from mem len cls have shape: "cao_code_shape U g1 g2" by (auto simp: cao_code_shape_def)
  have "cao_try U s (length g1, 4) = None" if "length g2 = 3"
  proof -
    from that len mem have m3: "m = 3" and n: "n = 4 \<or> n = 3 \<or> n = 2" by auto
    from split nm m3 n have "(n, 4) \<in> set ys"
      by (auto simp: Cons_eq_append_conv append_eq_Cons_conv)
    with before len show ?thesis by auto
  qed
  with s shape show ?thesis by blast
qed

lemma cao_match_at_complete:
  assumes "cao_code_shape U l d"
  shows "cao_match_at U (l @ d @ post) \<noteq> None"
proof -
  from assms have "(length l, length d) \<in> set [(4, 4), (4, 3), (3, 4), (3, 3), (2, 4), (2::nat, 3::nat)]"
    by (auto simp: cao_code_shape_def)
  moreover from assms have "cao_try U (l @ d @ post) (length l, length d) = Some (l, d)"
    by (simp add: cao_try_complete cao_code_shape_def)
  ultimately show ?thesis
    unfolding cao_match_at_def first_some_None by force
qed

lemma cao_search_Some:
  assumes "cao_search U s = Some (g1, g2)"
  shows "\<exists>pre post. s = pre @ g1 @ g2 @ post \<and> cao_code_shape U g1 g2 \<and>
           (length g2 = 3 \<longrightarrow> cao_try U (g1 @ g2 @ post) (length g1, 4) = None) \<and>
           (\<forall>pre' l d post'. s = pre' @ l @ d @ post' \<and> cao_code_shape U l d \<longrightarrow> length pre \<le> length pre')"
  using assms
proof (induction s)
  case Nil
  then have "cao_match_at U [] = Some (g1, g2)" by simp
  from cao_match_at_Some [OF this] show ?case by (auto simp: cao_code_shape_def)
next
  case (Cons c cs)
  show ?case
  proof (cases "cao_match_at U (c # cs)")
    case (Some r)
    with Cons.prems have "cao_match_at U (c # cs) = Some (g1, g2)" by simp
    from cao_match_at_Some [OF this] obtain post where
      "c # cs = [] @ g1 @ g2 @ post" "cao_code_shape U g1 g2"
      "length g2 = 3 \<longrightarrow> cao_try U (g1 @ g2 @ post) (length g1, 4) = None"
      by auto
    then show ?thesis by (metis le0 list.size(3))
  next
    case None
    with Cons.prems have "cao_search U cs = Some (g1, g2)" by simp
    from Cons.IH [OF this] obtain pre post where
      cs: "cs = pre @ g1 @ g2 @ post" and shape: "cao_code_shape U g1 g2"
      and greedy: "length g2 = 3 \<longrightarrow> cao_try U (g1 @ g2 @ post) (length g1, 4) = None"
      and left: "\<forall>pre' l d post'. cs = pre' @ l @ d @ post' \<and> cao_code_shape U l d \<longrightarrow> length pre \<le> length pre'"
      by blast
    have "length (c # pre) \<le> length pre'" if occ: "c # cs = pre' @ l @ d @ post'" and sh: "cao_code_shape U l d"
      for pre' l d post'
    proof (cases pre')
      case Nil
      with occ cao_match_at_complete [OF sh, of post'] None show ?thesis by simp
    next
      case (Cons a pre'')
      with occ have "cs = pre'' @ l @ d @ post'" by simp
      with left sh have "length pre \<le> length pre''" by blast
      with Cons show ?thesis by simp
    qed
    moreover have "c # cs = (c # pre) @ g1 @ g2 @ post" using cs by simp
    ultimately show ?thesis using shape greedy by blast
  qed
qed

lemma cao_search_complete:
  assumes "cao_code_shape U l d"
  shows "cao_search U (pre @ l @ d @ post) \<noteq> None"
proof (induction pre)
  case Nil
  from assms have "l \<noteq> []" by (auto simp: cao_code_shape_def)
  then obtain c cs where "l @ d @ post = c # cs" by (cases l) auto
  with cao_match_at_complete [OF assms, of post] show ?case by auto
next
  case (Cons a pre)
  then show ?case by (auto split: option.splits)
qed


lemma digit_not_AZ: "is_digit U c \<Longrightarrow> \<not> is_AZ c"
  by (auto simp: is_digit_def digit_val_def is_AZ_def is_09_def isascii_def split: if_splits)

lemma letters_determined:
  assumes "l @ d @ post = l' @ d' @ post'"
    and "list_all is_AZ l" "list_all is_AZ l'" "d \<noteq> []" "d' \<noteq> []"
    and "list_all (is_digit U) d" "list_all (is_digit U) d'"
  shows "l = l' \<and> d @ post = d' @ post'"
proof -
  from assms(4,6) obtain x xs where d: "d = x # xs" "\<not> is_AZ x"
    by (cases d) (auto dest: digit_not_AZ)
  from assms(5,7) obtain y ys where d': "d' = y # ys" "\<not> is_AZ y"
    by (cases d') (auto dest: digit_not_AZ)
  have "takeWhile is_AZ (l @ d @ post) = l"
    using assms(2) d by (simp add: takeWhile_append2 list_all_iff)
  moreover have "takeWhile is_AZ (l' @ d' @ post') = l'"
    using assms(3) d' by (simp add: takeWhile_append2 list_all_iff)
  ultimately have "l = l'" using assms(1) by simp
  with assms(1) show ?thesis by simp
qed

lemma greedy_digits:
  assumes "cao_try U (g1 @ g2 @ post) (length g1, 4) = None" and "cao_code_shape U g1 g2" and "length g2 = 3"
  shows "case post of [] \<Rightarrow> True | c # _ \<Rightarrow> \<not> is_digit U c"
proof (cases post)
  case Nil
  then show ?thesis by simp
next
  case (Cons c cs)
  with assms show ?thesis
    by (auto simp: cao_try_def cao_code_shape_def Let_def split: if_splits)
qed

text \<open>
  Claim C4. Let the stripped and uppercased input string contain 2 to 4 letters
  immediately followed by 3 to 4 digits. Then \<^verbatim>\<open>standardize_cao_code\<close> returns such a
  substring of it, letters and digits with nothing between them: the one that starts
  leftmost, with a fourth digit whenever a fourth digit follows. If the given occurrence
  starts at that leftmost place, the result has exactly its letters, and its digits
  (followed by that fourth digit if the occurrence was given with three).
  For \<^verbatim>\<open>"code: ab123 "\<close> the result is \<^verbatim>\<open>"AB123"\<close>.
\<close>

theorem standardize_cao_code_canonical:
  assumes "upper U (strip s) = pre @ letters @ digits @ post" and "cao_code_shape U letters digits"
  shows "\<exists>pre' letters' digits' post'.
           upper U (strip s) = pre' @ letters' @ digits' @ post' \<and>
           cao_code_shape U letters' digits' \<and>
           standardize_cao_code U (PStr s) = letters' @ digits' \<and>
           length pre' \<le> length pre \<and>
           (length digits' = 3 \<longrightarrow> (case post' of [] \<Rightarrow> True | c # _ \<Rightarrow> \<not> is_digit U c)) \<and>
           (length pre' = length pre \<longrightarrow> letters' = letters \<and> prefix digits digits')"
proof -
  let ?code = "upper U (strip s)"
  from assms have "?code \<noteq> []" by (auto simp: cao_code_shape_def)
  then have s: "s \<noteq> []" by (auto simp: upper_def strip_def)
  from cao_search_complete [OF assms(2), of pre post] assms(1)
  obtain g1 g2 where found: "cao_search U ?code = Some (g1, g2)" by auto
  from cao_search_Some [OF found] obtain pre' post' where
    occ: "?code = pre' @ g1 @ g2 @ post'" and shape: "cao_code_shape U g1 g2"
    and greedy: "length g2 = 3 \<longrightarrow> cao_try U (g1 @ g2 @ post') (length g1, 4) = None"
    and left: "\<forall>p l d q. ?code = p @ l @ d @ q \<and> cao_code_shape U l d \<longrightarrow> length pre' \<le> length p"
    by blast
  have result: "standardize_cao_code U (PStr s) = g1 @ g2"
    unfolding standardize_cao_code_def Let_def using s found by simp
  have leftmost: "length pre' \<le> length pre" using left assms by blast
  have longest: "case post' of [] \<Rightarrow> True | c # _ \<Rightarrow> \<not> is_digit U c" if "length g2 = 3"
    using greedy_digits [OF _ shape that] greedy that by blast
  have same: "g1 = letters \<and> prefix digits g2" if "length pre' = length pre"
  proof -
    from that occ assms(1) have "pre' = pre" "g1 @ g2 @ post' = letters @ digits @ post"
      by (auto simp: append_eq_append_conv)
    from shape assms(2) have "list_all is_AZ g1" "list_all is_AZ letters" "g2 \<noteq> []" "digits \<noteq> []"
      "list_all (is_digit U) g2" "list_all (is_digit U) digits"
      by (auto simp: cao_code_shape_def)
    from letters_determined [OF \<open>g1 @ g2 @ post' = letters @ digits @ post\<close> this]
    have l: "g1 = letters" and rest: "g2 @ post' = digits @ post"
      by auto
    have "prefix digits g2"
    proof (cases "length g2 = 3")
      case True
      have "length digits = 3"
      proof (rule ccontr)
        assume "length digits \<noteq> 3"
        with assms(2) have four: "length digits = 4" by (auto simp: cao_code_shape_def)
        from rest True four obtain c cs where p: "post' = c # cs" and "digits = g2 @ [c]"
          by (cases post') (auto simp: append_eq_append_conv2 append_eq_Cons_conv Cons_eq_append_conv)
        with assms(2) have "is_digit U c" by (auto simp: cao_code_shape_def)
        with longest [OF True] p show False by simp
      qed
      with rest True have "digits = g2" by (auto simp: append_eq_append_conv)
      then show ?thesis by simp
    next
      case False
      with shape have "length digits \<le> length g2" using assms(2) by (auto simp: cao_code_shape_def)
      with rest show ?thesis
        by (metis prefixI prefix_length_prefix)
    qed
    with l show ?thesis by simp
  qed
  from occ shape result leftmost longest same show ?thesis by blast
qed

lemma cao_example_upper: "upper ascii_lib (strip (ustr ''code: ab123 '')) = ustr ''CODE: '' @ ustr ''AB'' @ ustr ''123'' @ []"
  by (simp add: upper_def strip_def char_defs)

lemma cao_example_shape: "cao_code_shape ascii_lib (ustr ''AB'') (ustr ''123'')"
  by (simp add: cao_code_shape_def char_defs)

lemma cao_example_result: "standardize_cao_code ascii_lib (PStr (ustr ''code: ab123 '')) = ustr ''AB123''"
  unfolding standardize_cao_code_def Let_def
  by (simp add: char_defs strip_def upper_def cao_match_at_def cao_try_def)

theorem standardize_cao_code_canonical_witness:
  "upper ascii_lib (strip (ustr ''code: ab123 '')) = ustr ''CODE: '' @ ustr ''AB'' @ ustr ''123'' @ [] \<and>
   cao_code_shape ascii_lib (ustr ''AB'') (ustr ''123'') \<and>
   standardize_cao_code ascii_lib (PStr (ustr ''code: ab123 '')) = ustr ''AB123''"
  using standardize_cao_code_canonical [OF cao_example_upper cao_example_shape]
    cao_example_upper cao_example_shape cao_example_result
  by simp

end
